theory Spec2Isabelle
  imports Main "HOL-Library.Word"
begin

unbundle bit_operations_syntax

section \<open>Events: mutexes taken and callbacks dispatched\<close>

text \<open>
  Jobs and callbacks are held through shared pointers; a pointer is modelled as a
  reference (a natural number), a null pointer as \<open>None\<close>.  Every operation returns,
  next to the state it leaves, the trace of what the calling thread did that an observer
  can see: the mutexes it locked and unlocked, and the callbacks it dispatched, in the
  order of the source.  Callbacks are observers: the model records the dispatch and does
  not run user code.
\<close>

type_synonym jobref = nat
type_synonym cbref = nat

datatype mutex = JobMutex jobref | QueueMutex | BlockMutex | ThreadMutex

text \<open>The hooks of multiJobCallback (the double of percentCompleteChanged is not kept).\<close>

datatype hook = Ready | Started | Canceled | Finished
  | NameChanged string | DescriptionChanged string | IdChanged string
  | PercentCompleteChanged

text \<open>The hooks of multiJobQueue::Callback.\<close>

datatype qhook = Adding | Added | Removed

datatype event = Acquire mutex | Release mutex
  | JobCallback cbref hook jobref
  | QueueCallback cbref qhook jobref

fun is_callback :: "event \<Rightarrow> bool" where
  "is_callback (JobCallback cb h j) = True"
| "is_callback (QueueCallback cb h j) = True"
| "is_callback e = False"

definition callbacks :: "event list \<Rightarrow> event list" where
  "callbacks evs = filter is_callback evs"

text \<open>
  The lock discipline of a trace: \<open>outside_locks held evs\<close> holds when no callback of
  \<open>evs\<close> is dispatched while a mutex of \<open>held\<close>, or one acquired since, is still held.
\<close>

fun outside_locks :: "mutex list \<Rightarrow> event list \<Rightarrow> bool" where
  "outside_locks held [] = True"
| "outside_locks held (Acquire m # evs) = outside_locks (m # held) evs"
| "outside_locks held (Release m # evs) = outside_locks (remove1 m held) evs"
| "outside_locks held (e # evs) = (held = [] \<and> outside_locks held evs)"

section \<open>multiJob\<close>

text \<open>enum State: a bit vector held in an int.\<close>

definition multiJob_NONE :: "32 word" where "multiJob_NONE = 0"
definition multiJob_READY :: "32 word" where "multiJob_READY = 1"
definition multiJob_RUNNING :: "32 word" where "multiJob_RUNNING = 2"
definition multiJob_CANCEL :: "32 word" where "multiJob_CANCEL = 4"
definition multiJob_FINISHED :: "32 word" where "multiJob_FINISHED = 8"
definition multiJob_ALL :: "32 word" where
  "multiJob_ALL = (multiJob_READY OR multiJob_RUNNING OR multiJob_CANCEL OR multiJob_FINISHED)"

lemmas state_defs = multiJob_NONE_def multiJob_READY_def multiJob_RUNNING_def
  multiJob_CANCEL_def multiJob_FINISHED_def multiJob_ALL_def

text \<open>The fields of multiJob (m_priority, a double that no operation here reads, is left out).\<close>

record multiJob =
  m_name :: string
  m_description :: string
  m_id :: string
  m_state :: "32 word"
  m_callback :: "cbref option"

text \<open>The constructor: \<open>m_state(multiJob_READY)\<close>, empty strings, no callback.\<close>

definition new_multiJob :: multiJob where
  "new_multiJob = \<lparr>m_name = [], m_description = [], m_id = [],
     m_state = multiJob_READY, m_callback = None\<rparr>"

definition setCallback :: "jobref \<Rightarrow> cbref option \<Rightarrow> multiJob \<Rightarrow> multiJob \<times> event list" where
  "setCallback this c job =
     (job\<lparr>m_callback := c\<rparr>, [Acquire (JobMutex this), Release (JobMutex this)])"

text \<open>
  The read accessors (state(), isCanceled(), isReady(), name(), id(), ...) lock the job
  mutex around the read of one field and release it; they are the read of the field, and
  leave no event in the trace.
\<close>

definition state :: "multiJob \<Rightarrow> 32 word" where
  "state job = m_state job"

definition isCanceled :: "multiJob \<Rightarrow> bool" where
  "isCanceled job = (m_state job AND multiJob_CANCEL \<noteq> 0)"

definition isReady :: "multiJob \<Rightarrow> bool" where
  "isReady job = (m_state job AND multiJob_READY \<noteq> 0)"

definition isStopped :: "multiJob \<Rightarrow> bool" where
  "isStopped job = (m_state job AND multiJob_FINISHED \<noteq> 0)"

definition isFinished :: "multiJob \<Rightarrow> bool" where
  "isFinished job = (m_state job AND multiJob_FINISHED \<noteq> 0)"

definition isRunning :: "multiJob \<Rightarrow> bool" where
  "isRunning job = (m_state job AND multiJob_RUNNING \<noteq> 0)"

text \<open>
  multiJob::setState.  The new state is computed from \<open>m_state\<close>, stored under the job
  mutex, and after the mutex is released the if / else-if chain dispatches to the callback
  taken under the mutex.
\<close>

definition setState :: "jobref \<Rightarrow> 32 word \<Rightarrow> bool \<Rightarrow> multiJob \<Rightarrow> multiJob \<times> event list" where
  "setState this val on job =
    (let newState = (if on then (m_state job OR val) AND multiJob_ALL
                     else (m_state job AND NOT val) AND multiJob_ALL);
         stateChangedFlag = (newState \<noteq> m_state job);
         oldState = m_state job;
         job' = job\<lparr>m_state := newState\<rparr>;
         currentState = m_state job';
         callback = m_callback job'
     in (job', [Acquire (JobMutex this), Release (JobMutex this)] @
         (case callback of
            None \<Rightarrow> []
          | Some cb \<Rightarrow>
              if stateChangedFlag then
                (if oldState AND multiJob_READY = 0 \<and> currentState AND multiJob_READY \<noteq> 0
                   then [JobCallback cb Ready this]
                 else if oldState AND multiJob_RUNNING = 0 \<and> currentState AND multiJob_RUNNING \<noteq> 0
                   then [JobCallback cb Started this]
                 else if oldState AND multiJob_CANCEL = 0 \<and> currentState AND multiJob_CANCEL \<noteq> 0
                   then [JobCallback cb Canceled this]
                 else if oldState AND multiJob_FINISHED = 0 \<and> currentState AND multiJob_FINISHED \<noteq> 0
                   then [JobCallback cb Finished this]
                 else [])
              else [])))"

text \<open>
  multiJob::resetState: under the job mutex, when \<open>val\<close> differs from \<open>m_state\<close> the
  state is cleared, the mutex released and setState(val) called; otherwise the mutex is
  released and nothing else happens.
\<close>

definition resetState :: "jobref \<Rightarrow> 32 word \<Rightarrow> multiJob \<Rightarrow> multiJob \<times> event list" where
  "resetState this val job =
    (if val \<noteq> m_state job
     then (let (job', evs) = setState this val True (job\<lparr>m_state := multiJob_NONE\<rparr>)
           in (job', [Acquire (JobMutex this), Release (JobMutex this)] @ evs))
     else (job, [Acquire (JobMutex this), Release (JobMutex this)]))"

definition cancel :: "jobref \<Rightarrow> multiJob \<Rightarrow> multiJob \<times> event list" where
  "cancel this job = setState this multiJob_CANCEL True job"

definition ready :: "jobref \<Rightarrow> multiJob \<Rightarrow> multiJob \<times> event list" where
  "ready this job = resetState this multiJob_READY job"

definition running :: "jobref \<Rightarrow> multiJob \<Rightarrow> multiJob \<times> event list" where
  "running this job = resetState this multiJob_RUNNING job"

text \<open>multiJob::finished keeps the cancel flag and resets to it with FINISHED.\<close>

definition finished :: "jobref \<Rightarrow> multiJob \<Rightarrow> multiJob \<times> event list" where
  "finished this job =
    (let newState = ((m_state job AND multiJob_CANCEL) OR multiJob_FINISHED);
         (job', evs) = resetState this newState job
     in (job', [Acquire (JobMutex this), Release (JobMutex this)] @ evs))"

text \<open>
  The rising edges of a transition as the specification words them: the hooks of the bits
  that are 0 in the old state and 1 in the new one, in the order READY, RUNNING, CANCEL,
  FINISHED.
\<close>

definition rising_edges :: "32 word \<Rightarrow> 32 word \<Rightarrow> hook list" where
  "rising_edges old new =
     map snd (filter (\<lambda>(b, h). old AND b = 0 \<and> new AND b \<noteq> 0)
       [(multiJob_READY, Ready), (multiJob_RUNNING, Started),
        (multiJob_CANCEL, Canceled), (multiJob_FINISHED, Finished)])"

section \<open>Notifications of setState\<close>

lemma callbacks_append: "callbacks (xs @ ys) = callbacks xs @ callbacks ys"
  by (simp add: callbacks_def)

lemma callbacks_locks [simp]:
  "callbacks (Acquire m # evs) = callbacks evs"
  "callbacks (Release m # evs) = callbacks evs"
  "callbacks [] = []"
  "callbacks (JobCallback cb h j # evs) = JobCallback cb h j # callbacks evs"
  "callbacks (QueueCallback cb q j # evs) = QueueCallback cb q j # callbacks evs"
  by (simp_all add: callbacks_def)

lemma setState_state:
  "m_state (fst (setState this val on job)) =
     (if on then (m_state job OR val) AND multiJob_ALL
      else (m_state job AND NOT val) AND multiJob_ALL)"
  by (simp add: setState_def Let_def)

lemma first_edge:
  "(if old AND multiJob_READY = 0 \<and> new AND multiJob_READY \<noteq> 0
      then [JobCallback cb Ready this]
    else if old AND multiJob_RUNNING = 0 \<and> new AND multiJob_RUNNING \<noteq> 0
      then [JobCallback cb Started this]
    else if old AND multiJob_CANCEL = 0 \<and> new AND multiJob_CANCEL \<noteq> 0
      then [JobCallback cb Canceled this]
    else if old AND multiJob_FINISHED = 0 \<and> new AND multiJob_FINISHED \<noteq> 0
      then [JobCallback cb Finished this]
    else []) = map (\<lambda>h. JobCallback cb h this) (take 1 (rising_edges old new))"
  by (simp add: rising_edges_def)

lemma rising_edges_same: "rising_edges old old = []"
  by (simp add: rising_edges_def)

text \<open>The whole trace of setState: the job mutex taken and released, then the dispatch.\<close>

lemma setState_trace:
  "snd (setState this val on job) =
     [Acquire (JobMutex this), Release (JobMutex this)] @
     (case m_callback job of
        None \<Rightarrow> []
      | Some cb \<Rightarrow> map (\<lambda>h. JobCallback cb h this)
          (take 1 (rising_edges (m_state job) (m_state (fst (setState this val on job))))))"
proof -
  define new where "new = m_state (fst (setState this val on job))"
  have new: "new = (if on then (m_state job OR val) AND multiJob_ALL
      else (m_state job AND NOT val) AND multiJob_ALL)"
    by (simp add: new_def setState_state)
  have trace: "snd (setState this val on job) =
     [Acquire (JobMutex this), Release (JobMutex this)] @
       (case m_callback job of
          None \<Rightarrow> []
        | Some cb \<Rightarrow>
            if new \<noteq> m_state job then
              (if m_state job AND multiJob_READY = 0 \<and> new AND multiJob_READY \<noteq> 0
                 then [JobCallback cb Ready this]
               else if m_state job AND multiJob_RUNNING = 0 \<and> new AND multiJob_RUNNING \<noteq> 0
                 then [JobCallback cb Started this]
               else if m_state job AND multiJob_CANCEL = 0 \<and> new AND multiJob_CANCEL \<noteq> 0
                 then [JobCallback cb Canceled this]
               else if m_state job AND multiJob_FINISHED = 0 \<and> new AND multiJob_FINISHED \<noteq> 0
                 then [JobCallback cb Finished this]
               else [])
            else [])"
    unfolding new setState_def Let_def by (simp split: option.splits)
  show ?thesis
  proof (cases "m_callback job")
    case None
    then show ?thesis unfolding trace new_def [symmetric] by simp
  next
    case (Some cb)
    show ?thesis
    proof (cases "new = m_state job")
      case True
      then show ?thesis
        unfolding trace new_def [symmetric] using Some by (simp add: rising_edges_same)
    next
      case False
      then show ?thesis
        unfolding trace new_def [symmetric] first_edge using Some by simp
    qed
  qed
qed

lemma callbacks_map_JobCallback [simp]:
  "callbacks (map (\<lambda>h. JobCallback cb h this) hs) = map (\<lambda>h. JobCallback cb h this) hs"
  by (induction hs) simp_all

lemma setState_callbacks:
  "callbacks (snd (setState this val on job)) =
     (case m_callback job of
        None \<Rightarrow> []
      | Some cb \<Rightarrow> map (\<lambda>h. JobCallback cb h this)
          (take 1 (rising_edges (m_state job) (m_state (fst (setState this val on job))))))"
  unfolding setState_trace by (simp split: option.splits)

text \<open>
  C2, as stated, asks for one notification per rising edge.  A job in READY with a callback,
  on setState(CANCEL | FINISHED), has two rising edges, CANCEL and FINISHED; the else-if
  chain dispatches canceled only.
\<close>

theorem setState_one_per_edge_counterexample:
  "callbacks (snd (setState 0 12 True (new_multiJob\<lparr>m_callback := Some 7\<rparr>)))
     = [JobCallback 7 Canceled 0]
   \<and> rising_edges (m_state new_multiJob)
        (m_state (fst (setState 0 12 True (new_multiJob\<lparr>m_callback := Some 7\<rparr>))))
     = [Canceled, Finished]
   \<and> m_state (fst (setState 0 12 True (new_multiJob\<lparr>m_callback := Some 7\<rparr>)))
     \<noteq> m_state new_multiJob"
  by (simp add: setState_def Let_def rising_edges_def new_multiJob_def state_defs)

text \<open>
  C2, amended: for a job with a callback attached, a setState call delivers at most one
  notification, that of the first rising edge in the order READY, RUNNING, CANCEL,
  FINISHED (none when no bit rises); a call whose only rising edge is one bit delivers
  exactly that bit's notification.
\<close>

theorem setState_first_rising_edge:
  "m_callback job = Some cb \<Longrightarrow>
   callbacks (snd (setState this val on job)) =
     map (\<lambda>h. JobCallback cb h this)
       (take 1 (rising_edges (m_state job) (m_state (fst (setState this val on job)))))"
  by (simp add: setState_callbacks)

theorem setState_first_rising_edge_witness:
  "m_callback (new_multiJob\<lparr>m_callback := Some 7\<rparr>) = Some 7 \<and>
   callbacks (snd (setState 0 multiJob_RUNNING True (new_multiJob\<lparr>m_callback := Some 7\<rparr>)))
     = [JobCallback 7 Started 0]"
  using setState_first_rising_edge [of "new_multiJob\<lparr>m_callback := Some 7\<rparr>" 7 0 multiJob_RUNNING True]
  by (simp add: setState_state rising_edges_def new_multiJob_def state_defs)

section \<open>resetState\<close>

text \<open>Every state an operation stores lies within the mask multiJob_ALL.\<close>

definition legal :: "multiJob \<Rightarrow> bool" where
  "legal job = (m_state job AND multiJob_ALL = m_state job)"

lemma legal_new_multiJob: "legal new_multiJob"
  by (simp add: legal_def new_multiJob_def state_defs)

lemma legal_setState: "legal (fst (setState this val on job))"
  by (simp add: legal_def setState_state and.assoc)

lemma resetState_state:
  "m_state (fst (resetState this val job)) =
     (if val \<noteq> m_state job then val AND multiJob_ALL else m_state job)"
  by (simp add: resetState_def setState_state multiJob_NONE_def split_beta)

lemma resetState_callback [simp]: "m_callback (fst (resetState this val job)) = m_callback job"
  by (simp add: resetState_def setState_def Let_def split_beta)

lemma setState_callback [simp]: "m_callback (fst (setState this val on job)) = m_callback job"
  by (simp add: setState_def Let_def)

lemma legal_resetState: "legal job \<Longrightarrow> legal (fst (resetState this val job))"
  by (simp add: legal_def resetState_state and.assoc)

lemma resetState_callbacks:
  "callbacks (snd (resetState this val job)) =
     (if val \<noteq> m_state job
      then (case m_callback job of
              None \<Rightarrow> []
            | Some cb \<Rightarrow> map (\<lambda>h. JobCallback cb h this)
                (take 1 (rising_edges multiJob_NONE (val AND multiJob_ALL))))
      else [])"
proof (cases "val = m_state job")
  case True
  then show ?thesis by (simp add: resetState_def)
next
  case False
  have "callbacks (snd (resetState this val job)) =
          callbacks (snd (setState this val True (job\<lparr>m_state := multiJob_NONE\<rparr>)))"
    using False by (simp add: resetState_def split_beta)
  also have "\<dots> = (case m_callback job of
              None \<Rightarrow> []
            | Some cb \<Rightarrow> map (\<lambda>h. JobCallback cb h this)
                (take 1 (rising_edges multiJob_NONE (val AND multiJob_ALL))))"
    by (simp add: setState_callbacks setState_state multiJob_NONE_def split: option.splits)
  finally show ?thesis using False by simp
qed

text \<open>
  C7, as stated, has resetState re-derive the notifications also when the value equals the
  current state.  A fresh job (READY) with a callback, on resetState(READY), is left as it
  is and nothing is dispatched, although READY rises from the cleared state.
\<close>

theorem resetState_same_value_counterexample:
  "callbacks (snd (resetState 0 multiJob_READY (new_multiJob\<lparr>m_callback := Some 7\<rparr>))) = []
   \<and> rising_edges multiJob_NONE (multiJob_READY AND multiJob_ALL) = [Ready]"
  by (simp add: resetState_def new_multiJob_def rising_edges_def state_defs)

text \<open>
  C7, amended: for a job whose state is within the legal bits, resetState(value) leaves the
  state equal to value masked to the legal bits.  When value differs from the current
  state, the state is cleared to NONE and setState(value, true) dispatches, to an attached
  callback, the notification of the first bit of the masked value in the order READY,
  RUNNING, CANCEL, FINISHED, and only that one.  When value equals the current state,
  nothing is dispatched.
\<close>

theorem resetState_amended:
  "legal job \<Longrightarrow>
   m_state (fst (resetState this val job)) = val AND multiJob_ALL \<and>
   (if val \<noteq> m_state job
    then fst (resetState this val job)
           = fst (setState this val True (job\<lparr>m_state := multiJob_NONE\<rparr>)) \<and>
         callbacks (snd (resetState this val job))
           = (case m_callback job of
                None \<Rightarrow> []
              | Some cb \<Rightarrow> map (\<lambda>h. JobCallback cb h this)
                  (take 1 (rising_edges multiJob_NONE (val AND multiJob_ALL))))
    else fst (resetState this val job) = job \<and>
         callbacks (snd (resetState this val job)) = [])"
proof -
  assume l: "legal job"
  have st: "m_state (fst (resetState this val job)) = val AND multiJob_ALL"
    using l by (auto simp: resetState_state legal_def)
  have job: "val \<noteq> m_state job \<Longrightarrow>
         fst (resetState this val job) = fst (setState this val True (job\<lparr>m_state := multiJob_NONE\<rparr>))"
    by (simp add: resetState_def split_beta)
  have same: "val = m_state job \<Longrightarrow> fst (resetState this val job) = job"
    by (simp add: resetState_def)
  show ?thesis
    using st job same by (simp add: resetState_callbacks)
qed

theorem resetState_amended_witness:
  "legal (new_multiJob\<lparr>m_callback := Some 7\<rparr>)
   \<and> m_state (fst (resetState 0 multiJob_RUNNING (new_multiJob\<lparr>m_callback := Some 7\<rparr>)))
       = multiJob_RUNNING
   \<and> callbacks (snd (resetState 0 multiJob_RUNNING (new_multiJob\<lparr>m_callback := Some 7\<rparr>)))
       = [JobCallback 7 Started 0]"
proof -
  let ?job = "new_multiJob\<lparr>m_callback := Some 7\<rparr>"
  have l: "legal ?job" by (simp add: legal_def new_multiJob_def state_defs)
  have d: "multiJob_RUNNING \<noteq> m_state ?job" by (simp add: new_multiJob_def state_defs)
  have r: "rising_edges multiJob_NONE (multiJob_RUNNING AND multiJob_ALL) = [Started]"
    by (simp add: rising_edges_def state_defs)
  have m: "multiJob_RUNNING AND multiJob_ALL = multiJob_RUNNING"
    by (simp add: state_defs)
  note t = resetState_amended [OF l, of 0 multiJob_RUNNING]
  have s: "m_state (fst (resetState 0 multiJob_RUNNING ?job)) = multiJob_RUNNING"
    using t by (simp add: m)
  have c: "callbacks (snd (resetState 0 multiJob_RUNNING ?job)) = [JobCallback 7 Started 0]"
    using t d r by simp
  show ?thesis using l s c by simp
qed

section \<open>multiJob::start and the job body\<close>

text \<open>
  A C++ exception is a value: \<open>Interrupt\<close> is multi::Thread::Interrupt, \<open>Failure\<close> any
  other exception.  An operation that can throw returns \<open>Return s\<close>, or \<open>Throw e s\<close> when
  \<open>e\<close> propagates out of it, with the state \<open>s\<close> it leaves behind in both cases.
\<close>

datatype exn = Interrupt | Failure

datatype 'a result = Return 'a | Throw exn 'a

text \<open>
  The pure virtual \<open>run()\<close> is a parameter: the body of a job acts on its own job and
  returns or throws.
\<close>

type_synonym run_body = "jobref \<Rightarrow> multiJob \<Rightarrow> (multiJob \<times> event list) result"

definition start :: "run_body \<Rightarrow> jobref \<Rightarrow> multiJob \<Rightarrow> (multiJob \<times> event list) result" where
  "start run this job =
     (let (job1, evs1) = setState this multiJob_RUNNING True job
      in case run this job1 of
           Throw e (job2, evs2) \<Rightarrow> Throw e (job2, evs1 @ evs2)
         | Return (job2, evs2) \<Rightarrow>
             if state job2 AND multiJob_CANCEL = 0
             then (let (job3, evs3) = setState this multiJob_FINISHED True job2
                   in Return (job3, evs1 @ evs2 @ evs3))
             else Return (job2, evs1 @ evs2))"

text \<open>A body that returns at once and does not touch its job.\<close>

definition idle_run :: run_body where
  "idle_run this job = Return (job, [])"

text \<open>A body that throws an exception other than Interrupt and does not touch its job.\<close>

definition failing_run :: run_body where
  "failing_run this job = Throw Failure (job, [])"

text \<open>At most one of the READY, RUNNING and FINISHED bits is set.\<close>

definition exclusive :: "32 word \<Rightarrow> bool" where
  "exclusive st =
     (length (filter (\<lambda>b. st AND b \<noteq> 0) [multiJob_READY, multiJob_RUNNING, multiJob_FINISHED]) \<le> 1)"

section \<open>Property setters and progress\<close>

definition setPercentComplete :: "jobref \<Rightarrow> multiJob \<Rightarrow> multiJob \<times> event list" where
  "setPercentComplete this job =
     (job, [Acquire (JobMutex this)] @
           (case m_callback job of
              None \<Rightarrow> []
            | Some cb \<Rightarrow> [JobCallback cb PercentCompleteChanged this]) @
           [Release (JobMutex this)])"

definition setName :: "jobref \<Rightarrow> string \<Rightarrow> multiJob \<Rightarrow> multiJob \<times> event list" where
  "setName this val job =
     (let changed = (val \<noteq> m_name job);
          job' = job\<lparr>m_name := val\<rparr>;
          callback = m_callback job'
      in (job', [Acquire (JobMutex this), Release (JobMutex this)] @
           (case callback of
              None \<Rightarrow> []
            | Some cb \<Rightarrow> if changed then [JobCallback cb (NameChanged val) this] else [])))"

definition setId :: "jobref \<Rightarrow> string \<Rightarrow> multiJob \<Rightarrow> multiJob \<times> event list" where
  "setId this val job =
     (let changed = (val \<noteq> m_id job);
          job' = job\<lparr>m_id := val\<rparr>;
          callback = m_callback job'
      in (job', [Acquire (JobMutex this), Release (JobMutex this)] @
           (case callback of
              None \<Rightarrow> []
            | Some cb \<Rightarrow> if changed then [JobCallback cb (IdChanged val) this] else [])))"

definition setDescription :: "jobref \<Rightarrow> string \<Rightarrow> multiJob \<Rightarrow> multiJob \<times> event list" where
  "setDescription this val job =
     (let changed = (val \<noteq> m_description job);
          job' = job\<lparr>m_description := val\<rparr>;
          callback = m_callback job'
      in (job', [Acquire (JobMutex this), Release (JobMutex this)] @
           (case callback of
              None \<Rightarrow> []
            | Some cb \<Rightarrow> if changed then [JobCallback cb (DescriptionChanged val) this] else [])))"

section \<open>The state bits after start\<close>

text \<open>
  C3.  A freshly constructed job is READY.  setState only ors the new bit in, so start,
  with a body that returns without touching the job, leaves READY, RUNNING and FINISHED set
  together; a single setState(RUNNING) leaves READY and RUNNING set.
\<close>

theorem start_leaves_ready_running_finished:
  "start idle_run 0 new_multiJob =
     Return (new_multiJob\<lparr>m_state := multiJob_READY OR multiJob_RUNNING OR multiJob_FINISHED\<rparr>,
             [Acquire (JobMutex 0), Release (JobMutex 0), Acquire (JobMutex 0), Release (JobMutex 0)])
   \<and> \<not> exclusive (multiJob_READY OR multiJob_RUNNING OR multiJob_FINISHED)
   \<and> m_state (fst (setState 0 multiJob_RUNNING True new_multiJob)) = multiJob_READY OR multiJob_RUNNING
   \<and> \<not> exclusive (multiJob_READY OR multiJob_RUNNING)"
  by (simp add: start_def idle_run_def setState_def state_def Let_def new_multiJob_def
      exclusive_def state_defs)

section \<open>Callbacks and the job mutex\<close>

lemma outside_locks_callbacks:
  "outside_locks [] (map (\<lambda>h. JobCallback cb h this) hs)"
  by (induction hs) simp_all

lemma setState_outside_locks: "outside_locks [] (snd (setState this val on job))"
  by (simp add: setState_trace outside_locks_callbacks split: option.splits)

lemma setName_outside_locks: "outside_locks [] (snd (setName this val job))"
  by (simp add: setName_def Let_def split: option.splits)

lemma setId_outside_locks: "outside_locks [] (snd (setId this val job))"
  by (simp add: setId_def Let_def split: option.splits)

lemma setDescription_outside_locks: "outside_locks [] (snd (setDescription this val job))"
  by (simp add: setDescription_def Let_def split: option.splits)

text \<open>
  C4.  setState, setName, setId and setDescription take the callback under the job mutex
  and dispatch after releasing it.  setPercentComplete does not: for a job with a callback
  the dispatch of percentCompleteChanged lies between the acquire and the release of the
  job mutex.
\<close>

theorem setPercentComplete_dispatches_under_mutex:
  "snd (setPercentComplete 0 (new_multiJob\<lparr>m_callback := Some 7\<rparr>)) =
     [Acquire (JobMutex 0), JobCallback 7 PercentCompleteChanged 0, Release (JobMutex 0)]
   \<and> \<not> outside_locks [] (snd (setPercentComplete 0 (new_multiJob\<lparr>m_callback := Some 7\<rparr>)))"
  by (simp add: setPercentComplete_def)

section \<open>multi::Block\<close>

text \<open>
  The release flag and the count of parked threads.  The operations are those of one
  calling thread: where the source parks the caller on the condition variable until
  another thread sets the flag, the operation has no result (\<open>None\<close>).
\<close>

record Block =
  m_release :: bool
  m_blockWaitCount :: int

definition new_Block :: "bool \<Rightarrow> Block" where
  "new_Block releaseFlag = \<lparr>m_release = releaseFlag, m_blockWaitCount = 0\<rparr>"

definition Block_set :: "bool \<Rightarrow> Block \<Rightarrow> Block \<times> event list" where
  "Block_set releaseFlag b =
     (b\<lparr>m_release := releaseFlag\<rparr>, [Acquire BlockMutex, Release BlockMutex])"

definition Block_block :: "Block \<Rightarrow> (Block \<times> event list) option" where
  "Block_block b =
     (if \<not> m_release b then None
      else Some (b, [Acquire BlockMutex, Release BlockMutex]))"

definition Block_release :: "Block \<Rightarrow> Block \<times> event list" where
  "Block_release b =
     ((if \<not> m_release b then b\<lparr>m_release := True\<rparr> else b),
      [Acquire BlockMutex, Release BlockMutex])"

definition Block_reset :: "Block \<Rightarrow> Block \<times> event list" where
  "Block_reset b =
     (b\<lparr>m_release := False, m_blockWaitCount := 0\<rparr>, [Acquire BlockMutex, Release BlockMutex])"

section \<open>multiJobQueue\<close>

text \<open>
  The jobs live in a store, from references to jobs; the queue is the list of the
  references it holds, in order (the same reference may occur twice when uniqueness was
  waived).
\<close>

type_synonym store = "jobref \<Rightarrow> multiJob"

record multiJobQueue =
  m_block :: Block
  m_jobQueue :: "jobref list"
  m_queueCallback :: "cbref option"

definition new_multiJobQueue :: multiJobQueue where
  "new_multiJobQueue = \<lparr>m_block = new_Block False, m_jobQueue = [], m_queueCallback = None\<rparr>"

text \<open>The find functions return the position of the iterator, \<open>None\<close> for \<open>end()\<close>.\<close>

fun find_first :: "('a \<Rightarrow> bool) \<Rightarrow> 'a list \<Rightarrow> nat option" where
  "find_first P [] = None"
| "find_first P (x # xs) = (if P x then Some 0 else map_option Suc (find_first P xs))"

definition findById :: "string \<Rightarrow> store \<Rightarrow> jobref list \<Rightarrow> nat option" where
  "findById ident s xs =
     (if ident = [] then None else find_first (\<lambda>j. ident = m_id (s j)) xs)"

definition findByName :: "string \<Rightarrow> store \<Rightarrow> jobref list \<Rightarrow> nat option" where
  "findByName name s xs =
     (if name = [] then None else find_first (\<lambda>j. name = m_name (s j)) xs)"

definition findByPointer :: "jobref \<Rightarrow> jobref list \<Rightarrow> nat option" where
  "findByPointer job xs = find_first (\<lambda>j. j = job) xs"

text \<open>\<open>std::list::erase\<close> at a position.\<close>

definition erase :: "nat \<Rightarrow> 'a list \<Rightarrow> 'a list" where
  "erase i xs = take i xs @ drop (Suc i) xs"

text \<open>
  multiJobQueue::size returns \<open>(unsigned int) m_jobQueue.size()\<close>: the length of the list
  cut to 32 bits.
\<close>

definition size_queue :: "multiJobQueue \<Rightarrow> 32 word" where
  "size_queue q = of_nat (length (m_jobQueue q))"

definition isEmpty :: "multiJobQueue \<Rightarrow> bool" where
  "isEmpty q = (m_jobQueue q = [])"

definition releaseBlock :: "multiJobQueue \<Rightarrow> multiJobQueue \<times> event list" where
  "releaseBlock q = (let (b, evs) = Block_release (m_block q) in (q\<lparr>m_block := b\<rparr>, evs))"

definition setQueueCallback :: "cbref option \<Rightarrow> multiJobQueue \<Rightarrow> multiJobQueue \<times> event list" where
  "setQueueCallback c q = (q\<lparr>m_queueCallback := c\<rparr>, [Acquire QueueMutex, Release QueueMutex])"

text \<open>\<open>if(cb) cb->hook(q, job)\<close>\<close>

definition queue_notify :: "cbref option \<Rightarrow> qhook \<Rightarrow> jobref \<Rightarrow> event list" where
  "queue_notify cb h job = (case cb of None \<Rightarrow> [] | Some c \<Rightarrow> [QueueCallback c h job])"

text \<open>
  multiJobQueue::add.  With the unique flag and the job found by pointer, the block is set
  (under the queue mutex) and the call returns.  Otherwise adding is dispatched, the job
  made ready, pushed at the back under the queue mutex, added dispatched and the block set.
\<close>

definition add :: "jobref \<Rightarrow> bool \<Rightarrow> store \<Rightarrow> multiJobQueue \<Rightarrow> store \<times> multiJobQueue \<times> event list" where
  "add job guaranteeUniqueFlag s q =
     (if guaranteeUniqueFlag \<and> findByPointer job (m_jobQueue q) \<noteq> None
      then (let (b, evs) = Block_set True (m_block q)
            in (s, q\<lparr>m_block := b\<rparr>, [Acquire QueueMutex] @ evs @ [Release QueueMutex]))
      else (let cb = m_queueCallback q;
                (job', evs1) = ready job (s job);
                q1 = q\<lparr>m_jobQueue := m_jobQueue q @ [job]\<rparr>;
                (b, evs2) = Block_set True (m_block q1)
            in (s(job := job'), q1\<lparr>m_block := b\<rparr>,
                [Acquire QueueMutex, Release QueueMutex] @ queue_notify cb Adding job @ evs1 @
                [Acquire QueueMutex, Release QueueMutex] @ queue_notify cb Added job @ evs2)))"

text \<open>
  multiJobQueue::removeByName: an empty name returns at once; otherwise the job is located
  and erased under the queue mutex, the block set after it, and removed dispatched.
\<close>

definition removeByName :: "string \<Rightarrow> store \<Rightarrow> multiJobQueue \<Rightarrow> multiJobQueue \<times> jobref option \<times> event list" where
  "removeByName name s q =
     (if name = [] then (q, None, [])
      else (let (q1, result) =
                  (case findByName name s (m_jobQueue q) of
                     Some i \<Rightarrow> (q\<lparr>m_jobQueue := erase i (m_jobQueue q)\<rparr>, Some (m_jobQueue q ! i))
                   | None \<Rightarrow> (q, None));
                cb = m_queueCallback q1;
                (b, evs) = Block_set (m_jobQueue q1 \<noteq> []) (m_block q1)
            in (q1\<lparr>m_block := b\<rparr>, result,
                [Acquire QueueMutex, Release QueueMutex] @ evs @
                (case result of None \<Rightarrow> [] | Some j \<Rightarrow> queue_notify cb Removed j))))"

text \<open>multiJobQueue::removeById: as removeByName, the block set under the queue mutex.\<close>

definition removeById :: "string \<Rightarrow> store \<Rightarrow> multiJobQueue \<Rightarrow> multiJobQueue \<times> jobref option \<times> event list" where
  "removeById ident s q =
     (if ident = [] then (q, None, [])
      else (let (q1, result) =
                  (case findById ident s (m_jobQueue q) of
                     Some i \<Rightarrow> (q\<lparr>m_jobQueue := erase i (m_jobQueue q)\<rparr>, Some (m_jobQueue q ! i))
                   | None \<Rightarrow> (q, None));
                cb = m_queueCallback q1;
                (b, evs) = Block_set (m_jobQueue q1 \<noteq> []) (m_block q1)
            in (q1\<lparr>m_block := b\<rparr>, result,
                [Acquire QueueMutex] @ evs @ [Release QueueMutex] @
                (case result of None \<Rightarrow> [] | Some j \<Rightarrow> queue_notify cb Removed j))))"

text \<open>multiJobQueue::remove: \<open>std::find\<close> by pointer, erase, dispatch; the block is not touched.\<close>

definition remove :: "jobref \<Rightarrow> multiJobQueue \<Rightarrow> multiJobQueue \<times> event list" where
  "remove job q =
     (let (q1, removedJob) =
            (case find_first (\<lambda>j. j = job) (m_jobQueue q) of
               Some i \<Rightarrow> (q\<lparr>m_jobQueue := erase i (m_jobQueue q)\<rparr>, Some (m_jobQueue q ! i))
             | None \<Rightarrow> (q, None));
          cb = m_queueCallback q1
      in (q1, [Acquire QueueMutex, Release QueueMutex] @
              (case removedJob of None \<Rightarrow> [] | Some j \<Rightarrow> queue_notify cb Removed j)))"

text \<open>
  multiJobQueue::nextJob.  The loop under the queue mutex: every canceled job at the head
  is marked finished and erased.
\<close>

fun discardCanceled :: "jobref list \<Rightarrow> store \<Rightarrow> jobref list \<times> store \<times> event list" where
  "discardCanceled [] s = ([], s, [])"
| "discardCanceled (j # js) s =
     (if isCanceled (s j)
      then (let (job', evs) = finished j (s j);
                (rest, s', evs') = discardCanceled js (s(j := job'))
            in (rest, s', evs @ evs'))
      else (j # js, s, []))"

text \<open>
  With the queue empty, \<open>blockIfEmptyFlag\<close> set and the block not released the caller
  parks: no result.
\<close>

definition nextJob :: "bool \<Rightarrow> store \<Rightarrow> multiJobQueue \<Rightarrow> (store \<times> multiJobQueue \<times> jobref option \<times> event list) option" where
  "nextJob blockIfEmptyFlag s q =
     (let emptyFlag = (m_jobQueue q = [])
      in case (if blockIfEmptyFlag \<and> emptyFlag then Block_block (m_block q)
               else Some (m_block q, [])) of
           None \<Rightarrow> None
         | Some (b0, evs0) \<Rightarrow>
             (let q0 = q\<lparr>m_block := b0\<rparr>
              in if m_jobQueue q0 = []
                 then (let (b, evs) = Block_set False (m_block q0)
                       in Some (s, q0\<lparr>m_block := b\<rparr>, None,
                                [Acquire QueueMutex, Release QueueMutex] @ evs0 @
                                [Acquire QueueMutex] @ evs @ [Release QueueMutex]))
                 else (let (rest, s', evs1) = discardCanceled (m_jobQueue q0) s;
                           (result, rest') =
                              (case rest of [] \<Rightarrow> (None, []) | j # js \<Rightarrow> (Some j, js));
                           q1 = q0\<lparr>m_jobQueue := rest'\<rparr>;
                           (b, evs2) = Block_set (m_jobQueue q1 \<noteq> []) (m_block q1)
                       in Some (s', q1\<lparr>m_block := b\<rparr>, result,
                                [Acquire QueueMutex, Release QueueMutex] @ evs0 @
                                [Acquire QueueMutex] @ evs1 @ evs2 @ [Release QueueMutex]))))"

section \<open>Lookup and removal by name and id\<close>

lemma find_first_Some:
  "find_first P xs = Some i \<Longrightarrow> i < length xs \<and> P (xs ! i) \<and> (\<forall>k<i. \<not> P (xs ! k))"
proof (induction xs arbitrary: i)
  case Nil
  then show ?case by simp
next
  case (Cons x xs)
  show ?case
  proof (cases "P x")
    case True
    with Cons.prems show ?thesis by simp
  next
    case False
    with Cons.prems obtain k where k: "find_first P xs = Some k" "i = Suc k"
      by auto
    from Cons.IH [OF k(1)] False k(2) show ?thesis
      by (auto simp: less_Suc_eq_0_disj)
  qed
qed

lemma find_first_None: "find_first P xs = None \<longleftrightarrow> (\<forall>x\<in>set xs. \<not> P x)"
  by (induction xs) auto

text \<open>Fixtures: a store whose job 0 has the empty name and id, and job 1 the name and id a.\<close>

definition named_jobs :: store where
  "named_jobs = (\<lambda>j. new_multiJob)(1 := new_multiJob\<lparr>m_name := ''a'', m_id := ''a''\<rparr>)"

definition named_queue :: multiJobQueue where
  "named_queue = \<lparr>m_block = new_Block True, m_jobQueue = [0, 1], m_queueCallback = Some 3\<rparr>"

text \<open>
  C10.  removeByName and removeById with the empty string return the null pointer, leave
  the queue as it is and dispatch nothing, whatever the queue holds; and a position that
  findByName or findById returns, for any string, is never that of a job whose name or id
  is empty.
\<close>

theorem remove_empty_string:
  "removeByName [] s q = (q, None, []) \<and>
   removeById [] s q = (q, None, []) \<and>
   findByName [] s (m_jobQueue q) = None \<and>
   findById [] s (m_jobQueue q) = None \<and>
   (\<forall>name i. findByName name s (m_jobQueue q) = Some i \<longrightarrow>
      i < length (m_jobQueue q) \<and> m_name (s (m_jobQueue q ! i)) \<noteq> []) \<and>
   (\<forall>ident i. findById ident s (m_jobQueue q) = Some i \<longrightarrow>
      i < length (m_jobQueue q) \<and> m_id (s (m_jobQueue q ! i)) \<noteq> [])"
proof -
  have name: "i < length xs \<and> m_name (s (xs ! i)) \<noteq> []"
    if "findByName name s xs = Some i" for name i xs
  proof -
    from that have "name \<noteq> []" and "find_first (\<lambda>j. name = m_name (s j)) xs = Some i"
      by (auto simp: findByName_def split: if_splits)
    with find_first_Some [of "\<lambda>j. name = m_name (s j)" xs i] show ?thesis by auto
  qed
  have ident: "i < length xs \<and> m_id (s (xs ! i)) \<noteq> []"
    if "findById ident s xs = Some i" for ident i xs
  proof -
    from that have "ident \<noteq> []" and "find_first (\<lambda>j. ident = m_id (s j)) xs = Some i"
      by (auto simp: findById_def split: if_splits)
    with find_first_Some [of "\<lambda>j. ident = m_id (s j)" xs i] show ?thesis by auto
  qed
  show ?thesis
    using name ident by (simp add: removeByName_def removeById_def findByName_def findById_def)
qed

theorem remove_empty_string_witness:
  "m_name (named_jobs 0) = [] \<and>
   removeByName [] named_jobs named_queue = (named_queue, None, []) \<and>
   removeById [] named_jobs named_queue = (named_queue, None, []) \<and>
   findByName ''a'' named_jobs (m_jobQueue named_queue) = Some 1 \<and>
   m_name (named_jobs (m_jobQueue named_queue ! 1)) \<noteq> []"
proof -
  have f: "findByName ''a'' named_jobs (m_jobQueue named_queue) = Some 1"
    by (simp add: findByName_def named_jobs_def named_queue_def new_multiJob_def)
  have e: "m_name (named_jobs 0) = []"
    by (simp add: named_jobs_def new_multiJob_def)
  from remove_empty_string [of named_jobs named_queue] f e show ?thesis
    by blast
qed

section \<open>Adding a job twice\<close>

text \<open>The parts of the result of a queue operation: the store, the queue, the trace.\<close>

definition store_of :: "store \<times> multiJobQueue \<times> event list \<Rightarrow> store" where
  "store_of r = fst r"

definition queue_of :: "store \<times> multiJobQueue \<times> event list \<Rightarrow> multiJobQueue" where
  "queue_of r = fst (snd r)"

definition trace_of :: "store \<times> multiJobQueue \<times> event list \<Rightarrow> event list" where
  "trace_of r = snd (snd r)"

text \<open>add(job, true) called twice in a row; the trace is that of both calls.\<close>

definition add_twice :: "jobref \<Rightarrow> store \<Rightarrow> multiJobQueue \<Rightarrow> store \<times> multiJobQueue \<times> event list" where
  "add_twice job s q =
     (let (s1, q1, evs1) = add job True s q;
          (s2, q2, evs2) = add job True s1 q1
      in (s2, q2, evs1 @ evs2))"

fun is_added :: "event \<Rightarrow> bool" where
  "is_added (QueueCallback cb Added j) = True"
| "is_added e = False"

text \<open>Fixtures: fresh jobs, and a queue with a callback that already holds job 0.\<close>

definition fresh_jobs :: store where
  "fresh_jobs = (\<lambda>j. new_multiJob)"

definition queue_holding_0 :: multiJobQueue where
  "queue_holding_0 = \<lparr>m_block = new_Block True, m_jobQueue = [0], m_queueCallback = Some 3\<rparr>"

lemma findByPointer_None: "findByPointer job xs = None \<longleftrightarrow> job \<notin> set xs"
  by (auto simp: findByPointer_def find_first_None)

lemma is_added_queue_notify [simp]:
  "filter is_added (queue_notify cb Added j) = queue_notify cb Added j"
  "filter is_added (queue_notify cb Adding j) = []"
  by (simp_all add: queue_notify_def split: option.splits)

lemma is_added_JobCallbacks [simp]:
  "filter is_added (map (\<lambda>h. JobCallback cb h this) hs) = []"
  by (induction hs) simp_all

lemma is_added_setState [simp]: "filter is_added (snd (setState this val on job)) = []"
  by (simp add: setState_trace split: option.splits)

lemma is_added_ready [simp]: "filter is_added (snd (ready this job)) = []"
  by (simp add: ready_def resetState_def split_beta)

text \<open>The first call on a queue that does not hold the job.\<close>

lemma add_absent:
  "job \<notin> set (m_jobQueue q) \<Longrightarrow>
   add job True s q =
     (s(job := fst (ready job (s job))),
      q\<lparr>m_jobQueue := m_jobQueue q @ [job], m_block := (m_block q)\<lparr>m_release := True\<rparr>\<rparr>,
      [Acquire QueueMutex, Release QueueMutex] @ queue_notify (m_queueCallback q) Adding job @
      snd (ready job (s job)) @
      [Acquire QueueMutex, Release QueueMutex] @ queue_notify (m_queueCallback q) Added job @
      [Acquire BlockMutex, Release BlockMutex])"
  by (simp add: add_def findByPointer_None Block_set_def split_beta Let_def)

text \<open>A call on a queue that holds the job sets the block and changes nothing else.\<close>

lemma add_present:
  "job \<in> set (m_jobQueue q) \<Longrightarrow>
   add job True s q =
     (s, q\<lparr>m_block := (m_block q)\<lparr>m_release := True\<rparr>\<rparr>,
      [Acquire QueueMutex, Acquire BlockMutex, Release BlockMutex, Release QueueMutex])"
  using findByPointer_None [of job "m_jobQueue q"]
  by (simp add: add_def Block_set_def)

text \<open>
  C9, as stated, holds for every queue.  On a queue that already holds the job neither call
  enqueues: the size stays as it was and no added callback is dispatched.
\<close>

theorem add_twice_counterexample:
  "size_queue (queue_of (add_twice 0 fresh_jobs queue_holding_0)) = size_queue queue_holding_0
   \<and> filter is_added (trace_of (add_twice 0 fresh_jobs queue_holding_0)) = []"
proof -
  have "0 \<in> set (m_jobQueue queue_holding_0)"
    by (simp add: queue_holding_0_def)
  then show ?thesis
    by (simp add: add_twice_def add_present queue_of_def trace_of_def size_queue_def)
qed

text \<open>
  C9, amended: for every queue that does not yet hold the job j, add(j, true) twice in a row
  enqueues j exactly once: the queue afterwards is the queue before with j at the back;
  size(), an unsigned int, is 1 greater than before the first call in arithmetic modulo
  2^32, so exactly 1 greater when the queue held fewer than 2^32 - 1 jobs; the added
  callback is dispatched exactly once when the queue has a callback (and there is none to
  dispatch otherwise); and the second call sets the block released under the queue mutex
  and leaves the store and the queue contents as the first call left them.
\<close>

theorem add_twice_enqueues_once:
  "job \<notin> set (m_jobQueue q) \<Longrightarrow>
   m_jobQueue (queue_of (add_twice job s q)) = m_jobQueue q @ [job] \<and>
   size_queue (queue_of (add_twice job s q)) = size_queue q + 1 \<and>
   (length (m_jobQueue q) < 4294967295 \<longrightarrow>
      unat (size_queue (queue_of (add_twice job s q))) = unat (size_queue q) + 1) \<and>
   filter is_added (trace_of (add_twice job s q)) = queue_notify (m_queueCallback q) Added job \<and>
   m_release (m_block (queue_of (add_twice job s q))) \<and>
   add job True (store_of (add job True s q)) (queue_of (add job True s q)) =
     (store_of (add job True s q), queue_of (add job True s q),
      [Acquire QueueMutex, Acquire BlockMutex, Release BlockMutex, Release QueueMutex])"
proof -
  assume absent: "job \<notin> set (m_jobQueue q)"
  define s1 where "s1 = store_of (add job True s q)"
  define q1 where "q1 = queue_of (add job True s q)"
  define evs1 where "evs1 = trace_of (add job True s q)"
  have first: "add job True s q = (s1, q1, evs1)"
    by (simp add: s1_def q1_def evs1_def store_of_def queue_of_def trace_of_def)
  have q1: "q1 = q\<lparr>m_jobQueue := m_jobQueue q @ [job], m_block := (m_block q)\<lparr>m_release := True\<rparr>\<rparr>"
    unfolding q1_def by (simp add: add_absent [OF absent] queue_of_def)
  have evs1: "filter is_added evs1 = queue_notify (m_queueCallback q) Added job"
    unfolding evs1_def by (simp add: add_absent [OF absent] trace_of_def)
  have present: "job \<in> set (m_jobQueue q1)"
    by (simp add: q1)
  have second: "add job True s1 q1 =
      (s1, q1, [Acquire QueueMutex, Acquire BlockMutex, Release BlockMutex, Release QueueMutex])"
    by (simp add: add_present [OF present]) (simp add: q1)
  have twice: "add_twice job s q =
      (s1, q1, evs1 @ [Acquire QueueMutex, Acquire BlockMutex, Release BlockMutex, Release QueueMutex])"
    by (simp add: add_twice_def first second)
  have wrapped: "size_queue q1 = size_queue q + 1"
    by (simp add: size_queue_def q1)
  have exact: "unat (size_queue q1) = unat (size_queue q) + 1"
    if "length (m_jobQueue q) < 4294967295"
  proof -
    have len: "m_jobQueue q1 = m_jobQueue q @ [job]"
      by (simp add: q1)
    have after: "unat (of_nat (length (m_jobQueue q @ [job])) :: 32 word)
                   = length (m_jobQueue q) + 1"
      using that by (subst unat_of_nat) simp
    have before: "unat (of_nat (length (m_jobQueue q)) :: 32 word) = length (m_jobQueue q)"
      using that by (subst unat_of_nat) simp
    show ?thesis
      by (simp only: size_queue_def len after before)
  qed
  show ?thesis
    unfolding twice s1_def [symmetric] q1_def [symmetric]
    using second evs1 wrapped exact by (simp add: queue_of_def trace_of_def q1)
qed

theorem add_twice_enqueues_once_witness:
  "0 \<notin> set (m_jobQueue (new_multiJobQueue\<lparr>m_queueCallback := Some 3\<rparr>)) \<and>
   length (m_jobQueue (new_multiJobQueue\<lparr>m_queueCallback := Some 3\<rparr>)) < 4294967295 \<and>
   unat (size_queue (queue_of (add_twice 0 fresh_jobs (new_multiJobQueue\<lparr>m_queueCallback := Some 3\<rparr>)))) = 1 \<and>
   size_queue (queue_of (add_twice 0 fresh_jobs (new_multiJobQueue\<lparr>m_queueCallback := Some 3\<rparr>))) = 1 \<and>
   filter is_added (trace_of (add_twice 0 fresh_jobs (new_multiJobQueue\<lparr>m_queueCallback := Some 3\<rparr>)))
     = [QueueCallback 3 Added 0]"
proof -
  have a: "0 \<notin> set (m_jobQueue (new_multiJobQueue\<lparr>m_queueCallback := Some 3\<rparr>))"
    by (simp add: new_multiJobQueue_def)
  from add_twice_enqueues_once [OF a, of fresh_jobs] a show ?thesis
    by (simp add: size_queue_def new_multiJobQueue_def queue_notify_def)
qed

section \<open>Removal and the release block\<close>

lemma outside_locks_queue_notify [simp]: "outside_locks [] (queue_notify cb h j)"
  by (simp add: queue_notify_def split: option.splits)

lemma callbacks_queue_notify [simp]: "callbacks (queue_notify cb h j) = queue_notify cb h j"
  by (simp add: queue_notify_def split: option.splits)

text \<open>What a removal by a key that located position \<open>i\<close>, or nothing, leaves behind.\<close>

definition erased :: "nat option \<Rightarrow> multiJobQueue \<Rightarrow> multiJobQueue \<Rightarrow> jobref option \<Rightarrow> bool" where
  "erased pos q q' result =
     (case pos of
        None \<Rightarrow> m_jobQueue q' = m_jobQueue q \<and> result = None
      | Some i \<Rightarrow> m_jobQueue q' = erase i (m_jobQueue q) \<and> result = Some (m_jobQueue q ! i))"

lemma removeByName_nonempty:
  assumes "name \<noteq> []"
  shows "removeByName name s q =
    (case findByName name s (m_jobQueue q) of
       None \<Rightarrow> (q\<lparr>m_block := (m_block q)\<lparr>m_release := m_jobQueue q \<noteq> []\<rparr>\<rparr>, None,
                [Acquire QueueMutex, Release QueueMutex, Acquire BlockMutex, Release BlockMutex])
     | Some i \<Rightarrow> (q\<lparr>m_jobQueue := erase i (m_jobQueue q),
                     m_block := (m_block q)\<lparr>m_release := erase i (m_jobQueue q) \<noteq> []\<rparr>\<rparr>,
                  Some (m_jobQueue q ! i),
                  [Acquire QueueMutex, Release QueueMutex, Acquire BlockMutex, Release BlockMutex] @
                  queue_notify (m_queueCallback q) Removed (m_jobQueue q ! i)))"
  using assms by (simp add: removeByName_def Block_set_def split: option.splits)

lemma removeById_nonempty:
  assumes "ident \<noteq> []"
  shows "removeById ident s q =
    (case findById ident s (m_jobQueue q) of
       None \<Rightarrow> (q\<lparr>m_block := (m_block q)\<lparr>m_release := m_jobQueue q \<noteq> []\<rparr>\<rparr>, None,
                [Acquire QueueMutex, Acquire BlockMutex, Release BlockMutex, Release QueueMutex])
     | Some i \<Rightarrow> (q\<lparr>m_jobQueue := erase i (m_jobQueue q),
                     m_block := (m_block q)\<lparr>m_release := erase i (m_jobQueue q) \<noteq> []\<rparr>\<rparr>,
                  Some (m_jobQueue q ! i),
                  [Acquire QueueMutex, Acquire BlockMutex, Release BlockMutex, Release QueueMutex] @
                  queue_notify (m_queueCallback q) Removed (m_jobQueue q ! i)))"
  using assms by (simp add: removeById_def Block_set_def split: option.splits)

lemma remove_trace:
  "remove job q =
    (case find_first (\<lambda>j. j = job) (m_jobQueue q) of
       None \<Rightarrow> (q, [Acquire QueueMutex, Release QueueMutex])
     | Some i \<Rightarrow> (q\<lparr>m_jobQueue := erase i (m_jobQueue q)\<rparr>,
                  [Acquire QueueMutex, Release QueueMutex] @
                  queue_notify (m_queueCallback q) Removed (m_jobQueue q ! i)))"
  by (simp add: remove_def split: option.splits)

text \<open>The queue after add(0) on a fresh queue, and a fresh queue after releaseBlock().\<close>

definition queue_after_add :: multiJobQueue where
  "queue_after_add = fst (snd (add 0 True fresh_jobs new_multiJobQueue))"

definition queue_after_release :: multiJobQueue where
  "queue_after_release = fst (releaseBlock new_multiJobQueue)"

text \<open>
  C8, as stated, has the released flag equal to the queue's non-emptiness after each of the
  three removals.  After add(0) and remove(0) the queue is empty and the flag still set;
  and on an empty, released queue removeByName and removeById with the empty string return
  with the flag still set.
\<close>

theorem remove_release_flag_counterexample:
  "m_jobQueue (fst (remove 0 queue_after_add)) = [] \<and>
   m_release (m_block (fst (remove 0 queue_after_add))) \<and>
   m_jobQueue (fst (removeByName [] fresh_jobs queue_after_release)) = [] \<and>
   m_release (m_block (fst (removeByName [] fresh_jobs queue_after_release))) \<and>
   m_jobQueue (fst (removeById [] fresh_jobs queue_after_release)) = [] \<and>
   m_release (m_block (fst (removeById [] fresh_jobs queue_after_release)))"
  by (simp add: queue_after_add_def queue_after_release_def add_def remove_def
      removeByName_def removeById_def releaseBlock_def Block_release_def Block_set_def
      findByPointer_def new_multiJobQueue_def new_Block_def erase_def split_beta Let_def)


text \<open>
  The removed callback of a removal: dispatched with no mutex held, to the queue's callback,
  for the job the removal returned, and for no other.
\<close>

definition removed_outside_lock :: "cbref option \<Rightarrow> jobref option \<Rightarrow> event list \<Rightarrow> bool" where
  "removed_outside_lock cb result evs =
     (outside_locks [] evs \<and>
      callbacks evs = (case result of None \<Rightarrow> [] | Some j \<Rightarrow> queue_notify cb Removed j))"

text \<open>
  C8, amended: after removeByName(name) with a non-empty name, or removeById(id) with a
  non-empty id, returns, the block's released flag is true exactly when the queue is
  non-empty; the job located is erased and returned; and the removed callback is
  dispatched with no mutex held, for the erased job.  With the empty string both return at
  once and leave the queue and its block as they are.  remove(job) erases the first
  occurrence of the job and dispatches the removed callback for it with no mutex held.
\<close>

theorem removal_amended:
  "(name \<noteq> [] \<longrightarrow>
      m_release (m_block (fst (removeByName name s q)))
        = (m_jobQueue (fst (removeByName name s q)) \<noteq> []) \<and>
      erased (findByName name s (m_jobQueue q)) q
        (fst (removeByName name s q)) (fst (snd (removeByName name s q))) \<and>
      removed_outside_lock (m_queueCallback q)
        (fst (snd (removeByName name s q))) (snd (snd (removeByName name s q)))) \<and>
   (ident \<noteq> [] \<longrightarrow>
      m_release (m_block (fst (removeById ident s q)))
        = (m_jobQueue (fst (removeById ident s q)) \<noteq> []) \<and>
      erased (findById ident s (m_jobQueue q)) q
        (fst (removeById ident s q)) (fst (snd (removeById ident s q))) \<and>
      removed_outside_lock (m_queueCallback q)
        (fst (snd (removeById ident s q))) (snd (snd (removeById ident s q)))) \<and>
   removeByName [] s q = (q, None, []) \<and>
   removeById [] s q = (q, None, []) \<and>
   erased (find_first (\<lambda>j. j = job) (m_jobQueue q)) q (fst (remove job q))
     (if job \<in> set (m_jobQueue q) then Some job else None) \<and>
   removed_outside_lock (m_queueCallback q)
     (if job \<in> set (m_jobQueue q) then Some job else None) (snd (remove job q))"
proof -
  have empty: "removeByName [] s q = (q, None, [])" "removeById [] s q = (q, None, [])"
    by (simp_all add: removeByName_def removeById_def)
  have byName: "name \<noteq> [] \<Longrightarrow>
      m_release (m_block (fst (removeByName name s q)))
        = (m_jobQueue (fst (removeByName name s q)) \<noteq> []) \<and>
      erased (findByName name s (m_jobQueue q)) q
        (fst (removeByName name s q)) (fst (snd (removeByName name s q))) \<and>
      removed_outside_lock (m_queueCallback q)
        (fst (snd (removeByName name s q))) (snd (snd (removeByName name s q)))"
    by (cases "findByName name s (m_jobQueue q)")
      (simp_all add: removeByName_nonempty erased_def removed_outside_lock_def callbacks_append)
  have byId: "ident \<noteq> [] \<Longrightarrow>
      m_release (m_block (fst (removeById ident s q)))
        = (m_jobQueue (fst (removeById ident s q)) \<noteq> []) \<and>
      erased (findById ident s (m_jobQueue q)) q
        (fst (removeById ident s q)) (fst (snd (removeById ident s q))) \<and>
      removed_outside_lock (m_queueCallback q)
        (fst (snd (removeById ident s q))) (snd (snd (removeById ident s q)))"
    by (cases "findById ident s (m_jobQueue q)")
      (simp_all add: removeById_nonempty erased_def removed_outside_lock_def callbacks_append)
  have byPointer: "erased (find_first (\<lambda>j. j = job) (m_jobQueue q)) q (fst (remove job q))
       (if job \<in> set (m_jobQueue q) then Some job else None) \<and>
     removed_outside_lock (m_queueCallback q)
       (if job \<in> set (m_jobQueue q) then Some job else None) (snd (remove job q))"
  proof (cases "find_first (\<lambda>j. j = job) (m_jobQueue q)")
    case None
    then have "job \<notin> set (m_jobQueue q)"
      by (auto simp: find_first_None)
    with None show ?thesis
      by (simp add: remove_trace erased_def removed_outside_lock_def)
  next
    case (Some i)
    from find_first_Some [OF Some] have "i < length (m_jobQueue q)" and "m_jobQueue q ! i = job"
      by simp_all
    then have "job \<in> set (m_jobQueue q)"
      by (metis nth_mem)
    with Some \<open>m_jobQueue q ! i = job\<close> show ?thesis
      by (simp add: remove_trace erased_def removed_outside_lock_def callbacks_append)
  qed
  show ?thesis
    using byName byId byPointer empty by blast
qed

theorem removal_amended_witness:
  "''a'' \<noteq> [] \<and>
   m_jobQueue (fst (removeByName ''a'' named_jobs named_queue)) = [0] \<and>
   m_release (m_block (fst (removeByName ''a'' named_jobs named_queue))) \<and>
   fst (snd (removeByName ''a'' named_jobs named_queue)) = Some 1 \<and>
   callbacks (snd (snd (removeByName ''a'' named_jobs named_queue))) = [QueueCallback 3 Removed 1] \<and>
   m_jobQueue (fst (removeById ''a'' named_jobs named_queue)) = [0] \<and>
   callbacks (snd (remove 1 named_queue)) = [QueueCallback 3 Removed 1]"
proof -
  have n: "''a'' \<noteq> []" by simp
  have f: "findByName ''a'' named_jobs (m_jobQueue named_queue) = Some 1"
    by (simp add: findByName_def named_jobs_def named_queue_def new_multiJob_def)
  have g: "findById ''a'' named_jobs (m_jobQueue named_queue) = Some 1"
    by (simp add: findById_def named_jobs_def named_queue_def new_multiJob_def)
  have q: "m_jobQueue named_queue = [0, 1]" "m_queueCallback named_queue = Some 3"
    by (simp_all add: named_queue_def)
  note t = removal_amended [of "''a''" named_jobs named_queue "''a''" 1]
  from t n have byName:
    "m_release (m_block (fst (removeByName ''a'' named_jobs named_queue)))
       = (m_jobQueue (fst (removeByName ''a'' named_jobs named_queue)) \<noteq> [])"
    "erased (findByName ''a'' named_jobs (m_jobQueue named_queue)) named_queue
       (fst (removeByName ''a'' named_jobs named_queue))
       (fst (snd (removeByName ''a'' named_jobs named_queue)))"
    "removed_outside_lock (m_queueCallback named_queue)
       (fst (snd (removeByName ''a'' named_jobs named_queue)))
       (snd (snd (removeByName ''a'' named_jobs named_queue)))"
    by blast+
  from t n have byId:
    "erased (findById ''a'' named_jobs (m_jobQueue named_queue)) named_queue
       (fst (removeById ''a'' named_jobs named_queue))
       (fst (snd (removeById ''a'' named_jobs named_queue)))"
    by blast
  from t have byPointer:
    "removed_outside_lock (m_queueCallback named_queue)
       (if 1 \<in> set (m_jobQueue named_queue) then Some 1 else None) (snd (remove 1 named_queue))"
    by blast
  have 1: "m_jobQueue (fst (removeByName ''a'' named_jobs named_queue)) = [0]"
    "fst (snd (removeByName ''a'' named_jobs named_queue)) = Some 1"
    using byName(2) unfolding f by (simp_all add: erased_def erase_def q)
  have 2: "m_release (m_block (fst (removeByName ''a'' named_jobs named_queue)))"
    using byName(1) 1(1) by simp
  have 3: "callbacks (snd (snd (removeByName ''a'' named_jobs named_queue))) = [QueueCallback 3 Removed 1]"
    using byName(3) unfolding 1(2) by (simp add: removed_outside_lock_def q queue_notify_def)
  have 4: "m_jobQueue (fst (removeById ''a'' named_jobs named_queue)) = [0]"
    using byId unfolding g by (simp add: erased_def erase_def q)
  have 5: "callbacks (snd (remove 1 named_queue)) = [QueueCallback 3 Removed 1]"
    using byPointer by (simp add: removed_outside_lock_def q queue_notify_def)
  show ?thesis
    using n 1 2 3 4 5 by simp
qed

section \<open>nextJob and canceled jobs at the head\<close>

lemma and_exp: "(x::32 word) AND 2 ^ n = (if bit x n then 2 ^ n else 0)"
  by (rule bit_eqI) (auto simp: bit_simps)

lemma and_4: "(x::32 word) AND 4 \<noteq> 0 \<Longrightarrow> x AND 4 = 4"
  using and_exp [of x 2] by (simp split: if_splits)

lemma finished_canceled_state:
  "isCanceled job \<Longrightarrow> m_state (fst (finished this job)) = multiJob_CANCEL OR multiJob_FINISHED"
  by (auto simp: finished_def isCanceled_def resetState_state Let_def split_beta state_defs and_4)

lemma finished_canceled_callbacks:
  "isCanceled job \<Longrightarrow>
   callbacks (snd (finished this job)) =
     (if m_state job = multiJob_CANCEL OR multiJob_FINISHED then []
      else (case m_callback job of None \<Rightarrow> [] | Some cb \<Rightarrow> [JobCallback cb Canceled this]))"
proof -
  assume c: "isCanceled job"
  have v: "(m_state job AND multiJob_CANCEL) OR multiJob_FINISHED = multiJob_CANCEL OR multiJob_FINISHED"
    using c by (simp add: isCanceled_def state_defs and_4)
  have r: "rising_edges multiJob_NONE ((multiJob_CANCEL OR multiJob_FINISHED) AND multiJob_ALL)
             = [Canceled, Finished]"
    by (simp add: rising_edges_def state_defs)
  show ?thesis
    by (simp add: finished_def Let_def split_beta v resetState_callbacks r split: option.splits)
qed


lemma finished_canceled_job:
  "isCanceled job \<Longrightarrow>
   fst (finished this job) = job\<lparr>m_state := multiJob_CANCEL OR multiJob_FINISHED\<rparr>"
proof -
  assume c: "isCanceled job"
  have v: "(m_state job AND multiJob_CANCEL) OR multiJob_FINISHED = multiJob_CANCEL OR multiJob_FINISHED"
    using c by (simp add: isCanceled_def state_defs and_4)
  have m: "(multiJob_NONE OR (multiJob_CANCEL OR multiJob_FINISHED)) AND multiJob_ALL
             = multiJob_CANCEL OR multiJob_FINISHED"
    by (simp add: state_defs)
  show ?thesis
    by (simp add: finished_def Let_def split_beta v resetState_def setState_def m)
qed

lemma isCanceled_finished: "isCanceled (job\<lparr>m_state := multiJob_CANCEL OR multiJob_FINISHED\<rparr>)"
  by (simp add: isCanceled_def state_defs)

text \<open>The hook of a callback event, if it is one of a job.\<close>

fun is_finished_hook :: "event \<Rightarrow> bool" where
  "is_finished_hook (JobCallback cb Finished j) = True"
| "is_finished_hook e = False"

lemma finished_hook_is_callback: "is_finished_hook e \<Longrightarrow> is_callback e"
  by (induction e rule: is_finished_hook.induct) simp_all

lemma filter_finished_callbacks:
  "filter is_finished_hook (callbacks evs) = filter is_finished_hook evs"
  unfolding callbacks_def filter_filter
  by (rule filter_cong) (auto dest: finished_hook_is_callback)

lemma finished_canceled_no_finished_hook:
  "isCanceled job \<Longrightarrow> filter is_finished_hook (snd (finished this job)) = []"
proof -
  assume c: "isCanceled job"
  have "filter is_finished_hook (callbacks (snd (finished this job))) = []"
    by (simp add: finished_canceled_callbacks [OF c] split: option.splits)
  then show ?thesis
    by (simp add: filter_finished_callbacks)
qed

text \<open>
  The loop of nextJob: the canceled jobs at the head are dropped, each left in
  CANCEL | FINISHED, the others untouched, and no finished hook is dispatched.
\<close>

lemma discardCanceled_spec:
  "discardCanceled xs s = (rest, s', evs) \<Longrightarrow>
   rest = dropWhile (\<lambda>j. isCanceled (s j)) xs \<and>
   (\<forall>k. s' k = (if k \<in> set (takeWhile (\<lambda>j. isCanceled (s j)) xs)
                 then (s k)\<lparr>m_state := multiJob_CANCEL OR multiJob_FINISHED\<rparr> else s k)) \<and>
   filter is_finished_hook evs = []"
proof (induction xs arbitrary: s rest s' evs)
  case Nil
  then show ?case by simp
next
  case (Cons j js)
  show ?case
  proof (cases "isCanceled (s j)")
    case False
    with Cons.prems show ?thesis by auto
  next
    case True
    define s1 where "s1 = s(j := fst (finished j (s j)))"
    obtain rest1 s1' evs1 where d: "discardCanceled js s1 = (rest1, s1', evs1)"
      by (cases "discardCanceled js s1") auto
    have same: "isCanceled (s1 k) = isCanceled (s k)" for k
      using True by (simp add: s1_def finished_canceled_job isCanceled_finished)
    from Cons.prems True d have res: "rest = rest1" "s' = s1'" "evs = snd (finished j (s j)) @ evs1"
      by (simp_all add: s1_def [symmetric] split_beta)
    from Cons.IH [OF d] have ih:
      "rest1 = dropWhile (\<lambda>j. isCanceled (s j)) js"
      "\<And>k. s1' k = (if k \<in> set (takeWhile (\<lambda>j. isCanceled (s j)) js)
                 then (s1 k)\<lparr>m_state := multiJob_CANCEL OR multiJob_FINISHED\<rparr> else s1 k)"
      "filter is_finished_hook evs1 = []"
      by (simp_all add: same)
    have upd: "s1 k = (if k = j then (s k)\<lparr>m_state := multiJob_CANCEL OR multiJob_FINISHED\<rparr> else s k)" for k
      using True by (simp add: s1_def finished_canceled_job)
    show ?thesis
      using True res ih(1) ih(3) finished_canceled_no_finished_hook [OF True, of j]
      by (auto simp: ih(2) upd)
  qed
qed


lemma first_after_dropWhile:
  "(case dropWhile P xs of [] \<Rightarrow> None | k # ks \<Rightarrow> Some k) = find (\<lambda>k. \<not> P k) xs"
  by (induction xs) simp_all

text \<open>
  nextJob on a queue whose head is canceled: it returns (it does not park), the result is
  the first job of the queue that is not canceled, the queue keeps what follows it, every
  job before it is left in CANCEL | FINISHED, the block is set to the queue's
  non-emptiness, and no finished hook is dispatched to any callback.
\<close>

lemma nextJob_canceled_head:
  assumes "m_jobQueue q = j # js" and "isCanceled (s j)"
  shows "\<exists>s' q' evs.
      nextJob blockIfEmptyFlag s q
        = Some (s', q', find (\<lambda>k. \<not> isCanceled (s k)) (m_jobQueue q), evs) \<and>
      m_jobQueue q' = tl (dropWhile (\<lambda>k. isCanceled (s k)) (m_jobQueue q)) \<and>
      m_release (m_block q') = (m_jobQueue q' \<noteq> []) \<and>
      s' j = (s j)\<lparr>m_state := multiJob_CANCEL OR multiJob_FINISHED\<rparr> \<and>
      isFinished (s' j) \<and>
      filter is_finished_hook evs = []"
proof -
  obtain rest s' evs1 where d: "discardCanceled (m_jobQueue q) s = (rest, s', evs1)"
    by (cases "discardCanceled (m_jobQueue q) s") auto
  from discardCanceled_spec [OF d] have spec:
    "rest = dropWhile (\<lambda>k. isCanceled (s k)) (m_jobQueue q)"
    "\<And>k. s' k = (if k \<in> set (takeWhile (\<lambda>j. isCanceled (s j)) (m_jobQueue q))
                 then (s k)\<lparr>m_state := multiJob_CANCEL OR multiJob_FINISHED\<rparr> else s k)"
    "filter is_finished_hook evs1 = []"
    by simp_all
  have head: "s' j = (s j)\<lparr>m_state := multiJob_CANCEL OR multiJob_FINISHED\<rparr>"
    using assms by (simp add: spec(2))
  have fin: "isFinished (s' j)"
    by (simp add: head isFinished_def state_defs)
  have ne: "m_jobQueue q \<noteq> []"
    using assms(1) by simp
  define result where "result = find (\<lambda>k. \<not> isCanceled (s k)) (m_jobQueue q)"
  have result: "(case rest of [] \<Rightarrow> None | k # ks \<Rightarrow> Some k) = result"
    unfolding spec(1) result_def by (rule first_after_dropWhile)
  have pop: "(case rest of [] \<Rightarrow> (None, []) | k # ks \<Rightarrow> (Some k, ks)) = (result, tl rest)"
    using result by (cases rest) simp_all
  show ?thesis
    unfolding result_def [symmetric] spec(1) [symmetric]
    using ne spec(3) head fin
    by (simp add: nextJob_def Let_def d pop Block_set_def)
qed


text \<open>
  Fixtures: job 0 was made ready and then canceled (READY | CANCEL), job 1 is ready; both
  have the callback 7; the queue holds them in this order.
\<close>

definition canceled_head_jobs :: store where
  "canceled_head_jobs =
     (\<lambda>j. new_multiJob\<lparr>m_callback := Some 7\<rparr>)
       (0 := new_multiJob\<lparr>m_state := multiJob_READY OR multiJob_CANCEL, m_callback := Some 7\<rparr>)"

definition canceled_head_queue :: multiJobQueue where
  "canceled_head_queue = \<lparr>m_block = new_Block True, m_jobQueue = [0, 1], m_queueCallback = None\<rparr>"

text \<open>
  C1.  On the queue [0, 1] with job 0 canceled, nextJob erases job 0, leaves it in
  CANCEL | FINISHED and returns job 1.  The callback of job 0 is not told finished: finished()
  goes through resetState, which clears the state, so that in setState's else-if chain the
  CANCEL bit counts as risen and canceled is dispatched once more, under the queue mutex.
\<close>

theorem nextJob_canceled_head_hook:
  "nextJob True canceled_head_jobs canceled_head_queue =
     Some (canceled_head_jobs
             (0 := new_multiJob\<lparr>m_state := multiJob_CANCEL OR multiJob_FINISHED, m_callback := Some 7\<rparr>),
           canceled_head_queue\<lparr>m_jobQueue := [], m_block := new_Block False\<rparr>,
           Some 1,
           [Acquire QueueMutex, Release QueueMutex, Acquire QueueMutex,
            Acquire (JobMutex 0), Release (JobMutex 0),
            Acquire (JobMutex 0), Release (JobMutex 0),
            Acquire (JobMutex 0), Release (JobMutex 0),
            JobCallback 7 Canceled 0,
            Acquire BlockMutex, Release BlockMutex, Release QueueMutex])"
proof -
  have c0: "isCanceled (canceled_head_jobs 0)"
    by (simp add: canceled_head_jobs_def isCanceled_def state_defs)
  have f0: "finished 0 (canceled_head_jobs 0) =
      (new_multiJob\<lparr>m_state := multiJob_CANCEL OR multiJob_FINISHED, m_callback := Some 7\<rparr>,
       [Acquire (JobMutex 0), Release (JobMutex 0), Acquire (JobMutex 0), Release (JobMutex 0),
        Acquire (JobMutex 0), Release (JobMutex 0), JobCallback 7 Canceled 0])"
    by (simp add: canceled_head_jobs_def finished_def resetState_def setState_def Let_def
        new_multiJob_def state_defs)
  have c1: "\<not> isCanceled (canceled_head_jobs (Suc 0))"
    by (simp add: canceled_head_jobs_def isCanceled_def new_multiJob_def state_defs)
  show ?thesis
    using c0 c1
    by (simp add: nextJob_def canceled_head_queue_def Let_def f0 Block_set_def new_Block_def)
qed

section \<open>multi::Barrier\<close>

text \<open>
  The three counters of the barrier.  They are C++ ints.  \<open>m_blockedCount\<close> is a plain
  int: incrementing it at INT_MAX is undefined, and block() has no result there.
  \<open>m_waitCount\<close> is a \<open>std::atomic<int>\<close>, whose increment and decrement wrap around.
\<close>

record Barrier =
  m_maxCount :: int
  m_blockedCount :: int
  m_waitCount :: int

definition INT_MAX :: int where
  "INT_MAX = 2147483647"

definition wrap_int :: "int \<Rightarrow> int" where
  "wrap_int x = (x + 2147483648) mod 4294967296 - 2147483648"

definition new_Barrier :: "int \<Rightarrow> Barrier" where
  "new_Barrier maxCount = \<lparr>m_maxCount = maxCount, m_blockedCount = 0, m_waitCount = 0\<rparr>"

text \<open>
  Barrier::block runs under the barrier mutex up to the wait on the condition variable,
  which releases the mutex while the caller is parked.  \<open>block_enter\<close> is the part up to
  there: it counts the arrival and tells whether the caller parks (\<open>True\<close>) or, as the last
  arrival, notifies and returns.  \<open>block_wake\<close> is the rest for a parked caller: it can run
  once the predicate \<open>m_blockedCount >= m_maxCount\<close> holds.
\<close>

definition block_enter :: "Barrier \<Rightarrow> (Barrier \<times> bool) option" where
  "block_enter b =
     (if m_blockedCount b = INT_MAX then None
      else (let b1 = b\<lparr>m_blockedCount := m_blockedCount b + 1\<rparr>
            in if m_blockedCount b1 < m_maxCount b1
               then Some (b1\<lparr>m_waitCount := wrap_int (m_waitCount b1 + 1)\<rparr>, True)
               else Some (b1, False)))"

definition block_wake :: "Barrier \<Rightarrow> Barrier option" where
  "block_wake b =
     (if m_blockedCount b \<ge> m_maxCount b
      then Some (b\<lparr>m_waitCount := wrap_int (m_waitCount b - 1)\<rparr>)
      else None)"

text \<open>
  Barrier::reset forces the predicate; with waiters it notifies them and parks (\<open>True\<close>)
  until the wait count is below 1, and \<open>reset_finish\<close> is the rest; without waiters it
  zeroes the counters at once.
\<close>

definition reset_enter :: "Barrier \<Rightarrow> Barrier \<times> bool" where
  "reset_enter b =
     (let b1 = b\<lparr>m_blockedCount := m_maxCount b\<rparr>
      in if m_waitCount b1 > 0 then (b1, True)
         else (b1\<lparr>m_blockedCount := 0, m_waitCount := 0\<rparr>, False))"

definition reset_finish :: "Barrier \<Rightarrow> Barrier option" where
  "reset_finish b =
     (if m_waitCount b < 1 then Some (b\<lparr>m_blockedCount := 0, m_waitCount := 0\<rparr>) else None)"

text \<open>
  The barrier among its threads: the state is the barrier with the number of threads parked
  inside block() and inside reset().  An event is a thread calling block() or reset(), or
  a parked thread running on.  A step has no result when the event cannot happen in the
  state (nobody is parked, or the awaited predicate is false) or the behaviour is undefined.
\<close>

record barrier_state =
  barrier :: Barrier
  parked_in_block :: nat
  parked_in_reset :: nat

datatype barrier_event = Block | BlockWake | Reset | ResetFinish

definition barrier_step :: "barrier_event \<Rightarrow> barrier_state \<Rightarrow> barrier_state option" where
  "barrier_step e st =
     (case e of
        Block \<Rightarrow>
          (case block_enter (barrier st) of
             None \<Rightarrow> None
           | Some (b, parks) \<Rightarrow>
               Some (st\<lparr>barrier := b,
                        parked_in_block := (if parks then Suc (parked_in_block st)
                                            else parked_in_block st)\<rparr>))
      | BlockWake \<Rightarrow>
          (if parked_in_block st = 0 then None
           else (case block_wake (barrier st) of
                   None \<Rightarrow> None
                 | Some b \<Rightarrow> Some (st\<lparr>barrier := b, parked_in_block := parked_in_block st - 1\<rparr>)))
      | Reset \<Rightarrow>
          (let (b, parks) = reset_enter (barrier st)
           in Some (st\<lparr>barrier := b,
                       parked_in_reset := (if parks then Suc (parked_in_reset st)
                                           else parked_in_reset st)\<rparr>))
      | ResetFinish \<Rightarrow>
          (if parked_in_reset st = 0 then None
           else (case reset_finish (barrier st) of
                   None \<Rightarrow> None
                 | Some b \<Rightarrow> Some (st\<lparr>barrier := b, parked_in_reset := parked_in_reset st - 1\<rparr>))))"

fun barrier_run :: "barrier_event list \<Rightarrow> barrier_state \<Rightarrow> barrier_state option" where
  "barrier_run [] st = Some st"
| "barrier_run (e # es) st =
     (case barrier_step e st of None \<Rightarrow> None | Some st' \<Rightarrow> barrier_run es st')"

definition barrier_init :: "int \<Rightarrow> barrier_state" where
  "barrier_init maxCount = \<lparr>barrier = new_Barrier maxCount, parked_in_block = 0, parked_in_reset = 0\<rparr>"

text \<open>No call is in progress when no thread is parked inside block() or reset().\<close>

definition quiescent :: "barrier_state \<Rightarrow> bool" where
  "quiescent st = (parked_in_block st = 0 \<and> parked_in_reset st = 0)"

section \<open>The counters of the barrier\<close>

text \<open>
  C6, as stated, bounds the blocked count by the maximum.  On a barrier of maximum 1 a
  first block() returns at once with the blocked count 1, and a second one with 2.
\<close>

theorem barrier_blocked_count_counterexample:
  "barrier_run [Block, Block] (barrier_init 1) =
     Some \<lparr>barrier = \<lparr>m_maxCount = 1, m_blockedCount = 2, m_waitCount = 0\<rparr>,
           parked_in_block = 0, parked_in_reset = 0\<rparr>
   \<and> quiescent \<lparr>barrier = \<lparr>m_maxCount = 1, m_blockedCount = 2, m_waitCount = 0\<rparr>,
           parked_in_block = 0, parked_in_reset = 0\<rparr>
   \<and> \<not> m_blockedCount \<lparr>m_maxCount = 1, m_blockedCount = 2, m_waitCount = 0\<rparr>
         \<le> m_maxCount \<lparr>m_maxCount = 1, m_blockedCount = 2, m_waitCount = 0\<rparr>"
  by (simp add: barrier_step_def barrier_init_def new_Barrier_def block_enter_def INT_MAX_def
      quiescent_def Let_def)

text \<open>The invariant that every step keeps.\<close>

definition barrier_inv :: "barrier_state \<Rightarrow> bool" where
  "barrier_inv st =
     (0 \<le> m_waitCount (barrier st) \<and>
      m_waitCount (barrier st) \<le> m_blockedCount (barrier st) \<and>
      m_waitCount (barrier st) < m_maxCount (barrier st) \<and>
      m_maxCount (barrier st) \<le> INT_MAX \<and>
      m_waitCount (barrier st) = int (parked_in_block st))"

lemma wrap_int_id: "- 2147483648 \<le> x \<Longrightarrow> x \<le> INT_MAX \<Longrightarrow> wrap_int x = x"
  by (simp add: wrap_int_def INT_MAX_def)

lemma barrier_inv_init:
  "0 < maxCount \<Longrightarrow> maxCount \<le> INT_MAX \<Longrightarrow> barrier_inv (barrier_init maxCount)"
  by (simp add: barrier_inv_def barrier_init_def new_Barrier_def)

lemma barrier_step_inv:
  "barrier_inv st \<Longrightarrow> barrier_step e st = Some st' \<Longrightarrow>
   barrier_inv st' \<and> m_maxCount (barrier st') = m_maxCount (barrier st)"
proof (cases e)
  case Block
  then show "barrier_inv st \<Longrightarrow> barrier_step e st = Some st' \<Longrightarrow>
      barrier_inv st' \<and> m_maxCount (barrier st') = m_maxCount (barrier st)"
    by (auto simp: barrier_step_def barrier_inv_def block_enter_def Let_def wrap_int_id
        split: if_splits option.splits)
next
  case BlockWake
  then show "barrier_inv st \<Longrightarrow> barrier_step e st = Some st' \<Longrightarrow>
      barrier_inv st' \<and> m_maxCount (barrier st') = m_maxCount (barrier st)"
    by (auto simp: barrier_step_def barrier_inv_def block_wake_def wrap_int_id
        split: if_splits option.splits)
next
  case Reset
  then show "barrier_inv st \<Longrightarrow> barrier_step e st = Some st' \<Longrightarrow>
      barrier_inv st' \<and> m_maxCount (barrier st') = m_maxCount (barrier st)"
    by (auto simp: barrier_step_def barrier_inv_def reset_enter_def Let_def
        split: if_splits)
next
  case ResetFinish
  then show "barrier_inv st \<Longrightarrow> barrier_step e st = Some st' \<Longrightarrow>
      barrier_inv st' \<and> m_maxCount (barrier st') = m_maxCount (barrier st)"
    by (auto simp: barrier_step_def barrier_inv_def reset_finish_def
        split: if_splits option.splits)
qed

lemma barrier_run_inv:
  "barrier_inv st \<Longrightarrow> barrier_run es st = Some st' \<Longrightarrow>
   barrier_inv st' \<and> m_maxCount (barrier st') = m_maxCount (barrier st)"
proof (induction es arbitrary: st)
  case Nil
  then show ?case by simp
next
  case (Cons e es)
  from Cons.prems(2) obtain st1 where s1: "barrier_step e st = Some st1"
    and r: "barrier_run es st1 = Some st'"
    by (auto split: option.splits)
  from barrier_step_inv [OF Cons.prems(1) s1] Cons.IH [OF _ r] show ?case
    by simp
qed

text \<open>
  C6, amended: for every barrier constructed with a positive max_count (an int, so at most
  INT_MAX) and every sequence of block() and reset() calls, in every state reached, and so
  whenever no call is in progress, 0 <= wait_count <= blocked_count and
  wait_count < max_count hold, and max_count is the one the barrier was constructed with.
  blocked_count is not bounded by max_count: on a barrier that is full a further block()
  returns at once and counts one more.
\<close>

theorem barrier_counters_amended:
  "0 < maxCount \<Longrightarrow> maxCount \<le> INT_MAX \<Longrightarrow>
   barrier_run es (barrier_init maxCount) = Some st \<Longrightarrow>
   0 \<le> m_waitCount (barrier st) \<and>
   m_waitCount (barrier st) \<le> m_blockedCount (barrier st) \<and>
   m_waitCount (barrier st) < m_maxCount (barrier st) \<and>
   m_maxCount (barrier st) = maxCount \<and>
   (quiescent st \<longrightarrow> m_waitCount (barrier st) = 0) \<and>
   (m_maxCount (barrier st) \<le> m_blockedCount (barrier st) \<and>
    m_blockedCount (barrier st) < INT_MAX \<longrightarrow>
      barrier_step Block st =
        Some (st\<lparr>barrier := (barrier st)\<lparr>m_blockedCount := m_blockedCount (barrier st) + 1\<rparr>\<rparr>))"
proof -
  assume pos: "0 < maxCount" and int: "maxCount \<le> INT_MAX"
    and run: "barrier_run es (barrier_init maxCount) = Some st"
  from barrier_run_inv [OF barrier_inv_init [OF pos int] run]
  have "barrier_inv st" and "m_maxCount (barrier st) = maxCount"
    by (simp_all add: barrier_init_def new_Barrier_def)
  then show ?thesis
    by (simp add: barrier_inv_def quiescent_def barrier_step_def block_enter_def Let_def)
qed

theorem barrier_counters_amended_witness:
  "(0::int) < 2 \<and> 2 \<le> INT_MAX \<and>
   barrier_run [Block, Block, BlockWake, Block] (barrier_init 2) =
     Some \<lparr>barrier = \<lparr>m_maxCount = 2, m_blockedCount = 3, m_waitCount = 0\<rparr>,
           parked_in_block = 0, parked_in_reset = 0\<rparr> \<and>
   m_waitCount \<lparr>m_maxCount = 2, m_blockedCount = 3, m_waitCount = 0\<rparr>
     \<le> m_blockedCount \<lparr>m_maxCount = 2, m_blockedCount = 3, m_waitCount = 0\<rparr>"
proof -
  have p: "(0::int) < 2" by simp
  have i: "2 \<le> INT_MAX" by (simp add: INT_MAX_def)
  have r: "barrier_run [Block, Block, BlockWake, Block] (barrier_init 2) =
     Some \<lparr>barrier = \<lparr>m_maxCount = 2, m_blockedCount = 3, m_waitCount = 0\<rparr>,
           parked_in_block = 0, parked_in_reset = 0\<rparr>"
    by (simp add: barrier_step_def barrier_init_def new_Barrier_def block_enter_def
        block_wake_def INT_MAX_def wrap_int_def Let_def)
  from barrier_counters_amended [OF p i r] p i r show ?thesis
    by simp
qed

section \<open>multi::Thread and multiJobThreadQueue\<close>

text \<open>
  The worker thread as it sees the world: the fields of multi::Thread and of
  multiJobThreadQueue (\<open>m_queue\<close> is the shared pointer \<open>m_jobQueue\<close>, null when \<open>None\<close>),
  the jobs, and the trace so far.  Other threads do not run: where the worker would wait for
  one of them it parks.
\<close>

record world =
  m_running :: bool
  m_interrupt :: bool
  m_pauseBarrier :: Barrier
  m_doneFlag :: bool
  m_queue :: "multiJobQueue option"
  m_currentJob :: "jobref option"
  jobs :: store
  trace :: "event list"

text \<open>
  How a piece of the thread's code ends: it runs to its end, an exception propagates out
  of it, or the thread parks inside it; each with the state reached.
\<close>

datatype 'a outcome = Exits 'a | Throws exn 'a | Parks 'a

text \<open>Each job has its own \<open>run()\<close>.\<close>

type_synonym bodies = "jobref \<Rightarrow> run_body"

text \<open>Thread::interrupt (no result where the barrier's count would overflow).\<close>

definition interrupt :: "world \<Rightarrow> world outcome option" where
  "interrupt w =
     (if m_interrupt w then Some (Throws Interrupt w)
      else (case block_enter (m_pauseBarrier w) of
              None \<Rightarrow> None
            | Some (b, parks) \<Rightarrow>
                if parks then Some (Parks (w\<lparr>m_pauseBarrier := b\<rparr>))
                else Some (Exits (w\<lparr>m_pauseBarrier := b\<rparr>))))"

definition isValidQueue :: "world \<Rightarrow> bool" where
  "isValidQueue w = (m_queue w \<noteq> None)"

definition locked_thread :: "world \<Rightarrow> world" where
  "locked_thread w = w\<lparr>trace := trace w @ [Acquire ThreadMutex, Release ThreadMutex]\<rparr>"

text \<open>multiJobThreadQueue::nextJob\<close>

definition threadNextJob :: "world \<Rightarrow> (world \<times> jobref option) outcome" where
  "threadNextJob w =
     (let w1 = locked_thread w
      in case m_queue w1 of
           None \<Rightarrow> Exits (w1, None)
         | Some jobQueue \<Rightarrow>
             if m_doneFlag w1 then Exits (w1, None)
             else (case nextJob True (jobs w1) jobQueue of
                     None \<Rightarrow> Parks (w1, None)
                   | Some (s, q, job, evs) \<Rightarrow>
                       Exits (w1\<lparr>jobs := s, m_queue := Some q, trace := trace w1 @ evs\<rparr>, job)))"

text \<open>
  The body of the loop of multiJobThreadQueue::run after the job is fetched: the block
  under \<open>if (job && !m_doneFlag)\<close>.  The second component is the local \<open>job\<close>.
\<close>

definition process :: "bodies \<Rightarrow> jobref option \<Rightarrow> world \<Rightarrow> (world \<times> jobref option) outcome" where
  "process run job w =
     (case job of
        None \<Rightarrow> Exits (w, None)
      | Some j \<Rightarrow>
          if m_doneFlag w then Exits (w, Some j)
          else (let w1 = (locked_thread w)\<lparr>m_currentJob := Some j\<rparr>
                in if isReady (jobs w1 j)
                   then (case start (run j) j (jobs w1 j) of
                           Throw e (job', evs) \<Rightarrow>
                             Throws e (w1\<lparr>jobs := (jobs w1)(j := job'), trace := trace w1 @ evs\<rparr>,
                                       Some j)
                         | Return (job', evs) \<Rightarrow>
                             Exits ((locked_thread
                                      (w1\<lparr>jobs := (jobs w1)(j := job'), trace := trace w1 @ evs\<rparr>))
                                    \<lparr>m_currentJob := None\<rparr>, None))
                   else Exits ((locked_thread w1)\<lparr>m_currentJob := None\<rparr>, None)))"

text \<open>
  The do-while loop of multiJobThreadQueue::run, with fuel: one unit for each pass
  (\<open>yieldCurrentThread\<close> on the first pass changes nothing here).
\<close>

fun run_loop :: "nat \<Rightarrow> bodies \<Rightarrow> world \<Rightarrow> (world \<times> jobref option) outcome option" where
  "run_loop 0 run w = None"
| "run_loop (Suc n) run w =
     (case interrupt w of
        None \<Rightarrow> None
      | Some (Throws e w1) \<Rightarrow> Some (Throws e (w1, None))
      | Some (Parks w1) \<Rightarrow> Some (Parks (w1, None))
      | Some (Exits w1) \<Rightarrow>
          (let validQueue = isValidQueue w1
           in case threadNextJob w1 of
                Throws e r \<Rightarrow> Some (Throws e r)
              | Parks r \<Rightarrow> Some (Parks r)
              | Exits (w2, job) \<Rightarrow>
                  (case process run job w2 of
                     Throws e r \<Rightarrow> Some (Throws e r)
                   | Parks r \<Rightarrow> Some (Parks r)
                   | Exits (w3, job') \<Rightarrow>
                       if \<not> m_doneFlag w3 \<and> validQueue then run_loop n run w3
                       else Some (Exits (w3, job')))))"

text \<open>multiJobThreadQueue::run: the loop, then the current job cleared and a ready job canceled.\<close>

definition threadQueue_run :: "nat \<Rightarrow> bodies \<Rightarrow> world \<Rightarrow> world outcome option" where
  "threadQueue_run fuel run w =
     (case run_loop fuel run w of
        None \<Rightarrow> None
      | Some (Throws e (w1, job)) \<Rightarrow> Some (Throws e w1)
      | Some (Parks (w1, job)) \<Rightarrow> Some (Parks w1)
      | Some (Exits (w1, job)) \<Rightarrow>
          (let w2 = (locked_thread w1)\<lparr>m_currentJob := None\<rparr>
           in case job of
                None \<Rightarrow> Some (Exits w2)
              | Some j \<Rightarrow>
                  if m_doneFlag w2 \<and> isReady (jobs w2 j)
                  then (let (job', evs) = cancel j (jobs w2 j)
                        in Some (Exits (w2\<lparr>jobs := (jobs w2)(j := job'), trace := trace w2 @ evs\<rparr>)))
                  else Some (Exits w2)))"

text \<open>
  Thread::runInternal: \<open>run()\<close> inside a try block whose only handler is for Interrupt;
  after it the running flag is cleared.  Any other exception leaves runInternal, the entry
  function of the thread.
\<close>

definition runInternal :: "nat \<Rightarrow> bodies \<Rightarrow> world \<Rightarrow> world outcome option" where
  "runInternal fuel run w =
     (if m_interrupt w then Some (Exits (w\<lparr>m_running := False\<rparr>))
      else (case threadQueue_run fuel run w of
              None \<Rightarrow> None
            | Some (Exits w1) \<Rightarrow> Some (Exits (w1\<lparr>m_running := False\<rparr>))
            | Some (Throws Interrupt w1) \<Rightarrow> Some (Exits (w1\<lparr>m_running := False\<rparr>))
            | Some (Throws Failure w1) \<Rightarrow> Some (Throws Failure w1)
            | Some (Parks w1) \<Rightarrow> Some (Parks w1)))"

text \<open>
  Fixtures: a started worker on a queue that holds the ready jobs 0 and 1; the body of job
  0 throws, that of every other job returns.
\<close>

definition failing_bodies :: bodies where
  "failing_bodies = (\<lambda>j. idle_run)(0 := failing_run)"

definition started_world :: world where
  "started_world =
     \<lparr>m_running = True, m_interrupt = False, m_pauseBarrier = new_Barrier 1, m_doneFlag = False,
      m_queue = Some \<lparr>m_block = new_Block True, m_jobQueue = [0, 1], m_queueCallback = None\<rparr>,
      m_currentJob = None, jobs = fresh_jobs, trace = []\<rparr>"

section \<open>A job body that fails\<close>

text \<open>
  C5, as stated, has the worker clear the current job and go on polling.  On the queue
  [0, 1], when the body of job 0 throws, the exception leaves the loop and runInternal:
  the current job is still job 0, the running flag still set, and job 1 is left in the
  queue.
\<close>

theorem failing_body_counterexample:
  "runInternal 3 failing_bodies started_world =
     Some (Throws Failure
       (started_world
          \<lparr>m_pauseBarrier := \<lparr>m_maxCount = 1, m_blockedCount = 1, m_waitCount = 0\<rparr>,
           m_queue := Some \<lparr>m_block = new_Block True, m_jobQueue = [1], m_queueCallback = None\<rparr>,
           m_currentJob := Some 0,
           jobs := fresh_jobs(0 := new_multiJob\<lparr>m_state := multiJob_READY OR multiJob_RUNNING\<rparr>),
           trace := [Acquire ThreadMutex, Release ThreadMutex, Acquire QueueMutex,
                     Release QueueMutex, Acquire QueueMutex, Acquire BlockMutex,
                     Release BlockMutex, Release QueueMutex, Acquire ThreadMutex,
                     Release ThreadMutex, Acquire (JobMutex 0), Release (JobMutex 0)]\<rparr>))"
proof -
  have i: "interrupt started_world =
      Some (Exits (started_world\<lparr>m_pauseBarrier := \<lparr>m_maxCount = 1, m_blockedCount = 1, m_waitCount = 0\<rparr>\<rparr>))"
    by (simp add: interrupt_def started_world_def block_enter_def new_Barrier_def INT_MAX_def Let_def)
  have c: "\<not> isCanceled (fresh_jobs j)" for j
    by (simp add: fresh_jobs_def new_multiJob_def isCanceled_def state_defs)
  have n: "nextJob True fresh_jobs \<lparr>m_block = new_Block True, m_jobQueue = [0, Suc 0], m_queueCallback = None\<rparr>
      = Some (fresh_jobs, \<lparr>m_block = new_Block True, m_jobQueue = [Suc 0], m_queueCallback = None\<rparr>, Some 0,
          [Acquire QueueMutex, Release QueueMutex, Acquire QueueMutex, Acquire BlockMutex,
           Release BlockMutex, Release QueueMutex])"
    by (simp add: nextJob_def Let_def c Block_set_def new_Block_def)
  have r: "isReady (fresh_jobs 0)"
    by (simp add: fresh_jobs_def new_multiJob_def isReady_def state_defs)
  have s: "start (failing_bodies 0) 0 (fresh_jobs 0) =
      Throw Failure (new_multiJob\<lparr>m_state := multiJob_READY OR multiJob_RUNNING\<rparr>,
                     [Acquire (JobMutex 0), Release (JobMutex 0)])"
    by (simp add: start_def failing_bodies_def failing_run_def setState_def Let_def fresh_jobs_def
        new_multiJob_def state_defs)
  have l: "run_loop 3 failing_bodies started_world =
     Some (Throws Failure
       (started_world
          \<lparr>m_pauseBarrier := \<lparr>m_maxCount = 1, m_blockedCount = 1, m_waitCount = 0\<rparr>,
           m_queue := Some \<lparr>m_block = new_Block True, m_jobQueue = [1], m_queueCallback = None\<rparr>,
           m_currentJob := Some 0,
           jobs := fresh_jobs(0 := new_multiJob\<lparr>m_state := multiJob_READY OR multiJob_RUNNING\<rparr>),
           trace := [Acquire ThreadMutex, Release ThreadMutex, Acquire QueueMutex,
                     Release QueueMutex, Acquire QueueMutex, Acquire BlockMutex,
                     Release BlockMutex, Release QueueMutex, Acquire ThreadMutex,
                     Release ThreadMutex, Acquire (JobMutex 0), Release (JobMutex 0)]\<rparr>, Some 0))"
    unfolding numeral_3_eq_3 run_loop.simps i
    by (simp add: threadNextJob_def process_def locked_thread_def isValidQueue_def Let_def
        started_world_def n r s)
  show ?thesis
    by (simp add: runInternal_def threadQueue_run_def l) (simp add: started_world_def)
qed


lemma nextJob_ready_head:
  assumes "m_jobQueue q = j # js" and "\<not> isCanceled (s j)"
  shows "nextJob blockIfEmptyFlag s q =
     Some (s, q\<lparr>m_jobQueue := js, m_block := (m_block q)\<lparr>m_release := js \<noteq> []\<rparr>\<rparr>, Some j,
           [Acquire QueueMutex, Release QueueMutex, Acquire QueueMutex,
            Acquire BlockMutex, Release BlockMutex, Release QueueMutex])"
  using assms by (simp add: nextJob_def Let_def Block_set_def)

lemma start_throws:
  assumes "run this (fst (setState this multiJob_RUNNING True job)) = Throw e (job', evs)"
  shows "start run this job = Throw e (job', snd (setState this multiJob_RUNNING True job) @ evs)"
  using assms by (simp add: start_def split_beta)

text \<open>
  A pass of the loop that runs to its end and is followed by another one: the state in
  which the next pass starts.  No result when the pass throws, parks or is the last.
\<close>

definition loop_pass :: "bodies \<Rightarrow> world \<Rightarrow> world option" where
  "loop_pass run w =
     (case interrupt w of
        Some (Exits w1) \<Rightarrow>
          (case threadNextJob w1 of
             Exits (w2, job) \<Rightarrow>
               (case process run job w2 of
                  Exits (w3, job') \<Rightarrow>
                    if \<not> m_doneFlag w3 \<and> isValidQueue w1 then Some w3 else None
                | Throws e r \<Rightarrow> None
                | Parks r \<Rightarrow> None)
           | Throws e r \<Rightarrow> None
           | Parks r \<Rightarrow> None)
      | Some (Throws e w1) \<Rightarrow> None
      | Some (Parks w1) \<Rightarrow> None
      | None \<Rightarrow> None)"

fun passes :: "nat \<Rightarrow> bodies \<Rightarrow> world \<Rightarrow> world option" where
  "passes 0 run w = Some w"
| "passes (Suc k) run w =
     (case loop_pass run w of None \<Rightarrow> None | Some w' \<Rightarrow> passes k run w')"

lemma run_loop_pass:
  "loop_pass run w = Some w' \<Longrightarrow> run_loop (Suc n) run w = run_loop n run w'"
  by (auto simp: loop_pass_def Let_def split: option.splits outcome.splits prod.splits if_splits)

lemma run_loop_passes:
  "passes k run w = Some w' \<Longrightarrow> run_loop (k + n) run w = run_loop n run w'"
proof (induction k arbitrary: w)
  case 0
  then show ?case by simp
next
  case (Suc k)
  from Suc.prems obtain w1 where p: "loop_pass run w = Some w1" and r: "passes k run w1 = Some w'"
    by (auto split: option.splits)
  have "run_loop (Suc k + n) run w = run_loop (k + n) run w1"
    using run_loop_pass [OF p, of "k + n"] by simp
  with Suc.IH [OF r] show ?case by simp
qed

text \<open>What no part of the loop writes: the interrupt flag and the running flag.\<close>

lemma interrupt_flags:
  "interrupt w = Some (Exits w1) \<Longrightarrow>
   \<not> m_interrupt w \<and> m_interrupt w1 = m_interrupt w \<and> m_running w1 = m_running w"
  by (auto simp: interrupt_def split: if_splits option.splits)

lemma threadNextJob_flags:
  "threadNextJob w1 = Exits (w2, job) \<Longrightarrow>
   m_interrupt w2 = m_interrupt w1 \<and> m_running w2 = m_running w1 \<and>
   m_doneFlag w2 = m_doneFlag w1 \<and> (job \<noteq> None \<longrightarrow> \<not> m_doneFlag w1)"
  by (auto simp: threadNextJob_def locked_thread_def Let_def split: option.splits if_splits)

lemma process_flags:
  "process run job w2 = Exits (w3, job') \<Longrightarrow>
   m_interrupt w3 = m_interrupt w2 \<and> m_running w3 = m_running w2"
  by (auto simp: process_def locked_thread_def Let_def
      split: option.splits if_splits result.splits prod.splits)

lemma loop_pass_flags:
  "loop_pass run w = Some w' \<Longrightarrow>
   m_interrupt w' = m_interrupt w \<and> m_running w' = m_running w"
  by (auto simp: loop_pass_def split: option.splits outcome.splits prod.splits if_splits
      dest!: interrupt_flags threadNextJob_flags process_flags)

lemma passes_flags:
  "passes k run w = Some w' \<Longrightarrow>
   m_interrupt w' = m_interrupt w \<and> m_running w' = m_running w"
proof (induction k arbitrary: w)
  case 0
  then show ?case by simp
next
  case (Suc k)
  from Suc.prems obtain w1 where p: "loop_pass run w = Some w1" and r: "passes k run w1 = Some w'"
    by (auto split: option.splits)
  from loop_pass_flags [OF p] Suc.IH [OF r] show ?case by simp
qed


text \<open>
  C5, amended: for every worker thread whose current job's run() body raises a failure
  other than Interrupt, in whatever pass of the loop and whatever the queue held before
  the job, the failure is not handled by the worker: it propagates out of the loop of
  multiJobThreadQueue::run and out of Thread::runInternal, which traps Interrupt only.
  current_job is still the failed job, the running flag is as it was when the thread
  started, the job is left as the body left it, and the queue is as the fetch of the job
  left it: no further job is polled.
\<close>

theorem failing_body_propagates:
  assumes "passes k run w = Some wk"
    and "interrupt wk = Some (Exits w1)"
    and "threadNextJob w1 = Exits (w2, Some j)"
    and "isReady (jobs w2 j)"
    and "run j j (fst (setState j multiJob_RUNNING True (jobs w2 j))) = Throw Failure (job', evs)"
  shows "\<exists>w'. runInternal (k + Suc n) run w = Some (Throws Failure w') \<and>
      m_currentJob w' = Some j \<and>
      m_running w' = m_running w \<and>
      m_queue w' = m_queue w2 \<and>
      jobs w' = (jobs w2)(j := job')"
proof -
  from interrupt_flags [OF assms(2)] passes_flags [OF assms(1)]
  have ni: "\<not> m_interrupt w" and r1: "m_running w1 = m_running w"
    by simp_all
  from threadNextJob_flags [OF assms(3)]
  have nd: "\<not> m_doneFlag w2" and r2: "m_running w2 = m_running w1"
    by simp_all
  define w3 where "w3 = (locked_thread w2)\<lparr>m_currentJob := Some j\<rparr>"
  have j3: "jobs w3 = jobs w2"
    by (simp add: w3_def locked_thread_def)
  define w4 where "w4 = w3\<lparr>jobs := (jobs w3)(j := job'),
      trace := trace w3 @ snd (setState j multiJob_RUNNING True (jobs w2 j)) @ evs\<rparr>"
  have p: "process run (Some j) w2 = Throws Failure (w4, Some j)"
    using nd assms(4)
    by (simp add: process_def Let_def w3_def [symmetric] j3
        start_throws [where run = "run j", OF assms(5)] w4_def)
  have "run_loop (Suc n) run wk = Some (Throws Failure (w4, Some j))"
    by (simp add: assms(2) assms(3) p)
  with run_loop_passes [OF assms(1), of "Suc n"]
  have l: "run_loop (Suc (k + n)) run w = Some (Throws Failure (w4, Some j))"
    by simp
  have r: "runInternal (k + Suc n) run w = Some (Throws Failure w4)"
    using ni by (simp add: runInternal_def threadQueue_run_def l del: run_loop.simps)
  have "m_currentJob w4 = Some j" "m_running w4 = m_running w"
    "m_queue w4 = m_queue w2" "jobs w4 = (jobs w2)(j := job')"
    by (simp_all add: w4_def w3_def locked_thread_def r1 r2)
  with r show ?thesis by blast
qed

text \<open>
  Fixtures: a started worker on the queue [0, 3, 2], where job 3 was canceled while queued
  and the body of job 2 throws; the bodies of the others return.
\<close>

definition later_failing_bodies :: bodies where
  "later_failing_bodies = (\<lambda>j. idle_run)(2 := failing_run)"

definition later_failing_world :: world where
  "later_failing_world =
     \<lparr>m_running = True, m_interrupt = False, m_pauseBarrier = new_Barrier 1, m_doneFlag = False,
      m_queue = Some \<lparr>m_block = new_Block True, m_jobQueue = [0, 3, 2], m_queueCallback = None\<rparr>,
      m_currentJob = None,
      jobs = fresh_jobs(3 := new_multiJob\<lparr>m_state := multiJob_READY OR multiJob_CANCEL\<rparr>),
      trace = []\<rparr>"

theorem failing_body_propagates_witness:
  "\<exists>w'. runInternal 2 later_failing_bodies later_failing_world = Some (Throws Failure w') \<and>
      m_currentJob w' = Some 2 \<and> m_running w' \<and>
      map_option m_jobQueue (m_queue w') = Some []"
proof -
  let ?t1 = "[Acquire ThreadMutex, Release ThreadMutex, Acquire QueueMutex,
        Release QueueMutex, Acquire QueueMutex, Acquire BlockMutex,
        Release BlockMutex, Release QueueMutex, Acquire ThreadMutex,
        Release ThreadMutex, Acquire (JobMutex 0), Release (JobMutex 0),
        Acquire (JobMutex 0), Release (JobMutex 0), Acquire ThreadMutex,
        Release ThreadMutex]"
  let ?t2 = "?t1 @ [Acquire ThreadMutex, Release ThreadMutex, Acquire QueueMutex,
        Release QueueMutex, Acquire QueueMutex,
        Acquire (JobMutex 3), Release (JobMutex 3), Acquire (JobMutex 3),
        Release (JobMutex 3), Acquire (JobMutex 3), Release (JobMutex 3),
        Acquire BlockMutex, Release BlockMutex, Release QueueMutex]"
  let ?s0 = "fresh_jobs(3 := new_multiJob\<lparr>m_state := multiJob_READY OR multiJob_CANCEL\<rparr>)"
  let ?s1 = "?s0(0 := new_multiJob\<lparr>m_state := multiJob_READY OR multiJob_RUNNING OR multiJob_FINISHED\<rparr>)"
  let ?s2 = "?s1(3 := new_multiJob\<lparr>m_state := multiJob_CANCEL OR multiJob_FINISHED\<rparr>)"
  let ?wk = "later_failing_world
     \<lparr>m_pauseBarrier := \<lparr>m_maxCount = 1, m_blockedCount = 1, m_waitCount = 0\<rparr>,
      m_queue := Some \<lparr>m_block = new_Block True, m_jobQueue = [3, 2], m_queueCallback = None\<rparr>,
      jobs := ?s1, trace := ?t1\<rparr>"
  let ?w1 = "?wk\<lparr>m_pauseBarrier := \<lparr>m_maxCount = 1, m_blockedCount = 2, m_waitCount = 0\<rparr>\<rparr>"
  let ?w2 = "?w1\<lparr>m_queue := Some \<lparr>m_block = new_Block False, m_jobQueue = [], m_queueCallback = None\<rparr>,
      jobs := ?s2, trace := ?t2\<rparr>"
  have c0: "\<not> isCanceled (fresh_jobs j)" "isReady (fresh_jobs j)" for j
    by (simp_all add: fresh_jobs_def new_multiJob_def isCanceled_def isReady_def state_defs)
  have c3: "isCanceled (new_multiJob\<lparr>m_state := multiJob_READY OR multiJob_CANCEL\<rparr>)"
    by (simp add: isCanceled_def state_defs)
  have i0: "interrupt later_failing_world =
      Some (Exits (later_failing_world
        \<lparr>m_pauseBarrier := \<lparr>m_maxCount = 1, m_blockedCount = 1, m_waitCount = 0\<rparr>\<rparr>))"
    by (simp add: interrupt_def later_failing_world_def block_enter_def new_Barrier_def
        INT_MAX_def Let_def)
  have st0: "start (later_failing_bodies 0) 0 (fresh_jobs 0) =
      Return (new_multiJob\<lparr>m_state := multiJob_READY OR multiJob_RUNNING OR multiJob_FINISHED\<rparr>,
        [Acquire (JobMutex 0), Release (JobMutex 0), Acquire (JobMutex 0), Release (JobMutex 0)])"
    by (simp add: start_def later_failing_bodies_def idle_run_def setState_def state_def Let_def
        fresh_jobs_def new_multiJob_def state_defs)
  have p1: "loop_pass later_failing_bodies later_failing_world = Some ?wk"
    unfolding loop_pass_def i0
    by (simp add: threadNextJob_def process_def locked_thread_def isValidQueue_def Let_def
        later_failing_world_def nextJob_def Block_set_def new_Block_def c0 st0)
  have 1: "passes 1 later_failing_bodies later_failing_world = Some ?wk"
    unfolding One_nat_def passes.simps p1 by simp
  have 2: "interrupt ?wk = Some (Exits ?w1)"
    by (simp add: interrupt_def later_failing_world_def block_enter_def INT_MAX_def Let_def)
  have f3: "finished 3 (new_multiJob\<lparr>m_state := multiJob_READY OR multiJob_CANCEL\<rparr>) =
      (new_multiJob\<lparr>m_state := multiJob_CANCEL OR multiJob_FINISHED\<rparr>,
       [Acquire (JobMutex 3), Release (JobMutex 3), Acquire (JobMutex 3), Release (JobMutex 3),
        Acquire (JobMutex 3), Release (JobMutex 3)])"
    by (simp add: finished_def resetState_def setState_def Let_def new_multiJob_def state_defs)
  have 3: "threadNextJob ?w1 = Exits (?w2, Some 2)"
    by (simp add: threadNextJob_def locked_thread_def Let_def later_failing_world_def
        nextJob_def Block_set_def new_Block_def c0 c3 f3)
  have 4: "isReady (jobs ?w2 2)"
    by (simp add: c0)
  have 5: "later_failing_bodies 2 2 (fst (setState 2 multiJob_RUNNING True (jobs ?w2 2)))
      = Throw Failure (fst (setState 2 multiJob_RUNNING True (jobs ?w2 2)), [])"
    by (simp add: later_failing_bodies_def failing_run_def)
  from failing_body_propagates [where run = later_failing_bodies and n = 0, OF 1 2 3 4 5]
  obtain w' where r: "runInternal (1 + Suc 0) later_failing_bodies later_failing_world
        = Some (Throws Failure w')"
    and c: "m_currentJob w' = Some 2"
    and m: "m_running w' = m_running later_failing_world"
    and q: "m_queue w' = m_queue ?w2"
    by blast
  have two: "(1::nat) + Suc 0 = 2"
    by simp
  have r2: "runInternal 2 later_failing_bodies later_failing_world = Some (Throws Failure w')"
    using r by (simp only: two)
  have m2: "m_running w'"
    using m by (simp add: later_failing_world_def)
  have q2: "map_option m_jobQueue (m_queue w') = Some []"
    using q by simp
  from r2 c m2 q2 show ?thesis
    by blast
qed

end
